theory Spec2Isabelle
  imports Main
begin

section \<open>JavaScript values\<close>

text \<open>
  Frontmatter is untyped structured metadata, so the validator reads arbitrary JavaScript
  values: \<open>undefined\<close>, \<open>null\<close>, booleans, numbers, strings, arrays and plain
  objects. A number is modelled by what the validator can observe of it: whether it is
  truthy (neither zero nor NaN) and the string it converts to. An object is the
  association list of its own properties, read with the first binding of a key; it
  inherits the members of \<open>Object.prototype\<close>. A property read on \<open>null\<close> or
  \<open>undefined\<close>, a call of something that is not a function, and the conversion to a
  string of an object that has no usable \<open>toString\<close> raise a TypeError, which is a
  value of the model. Metadata holds no function, so that no property of an object can be
  called; dates and binary data, which some metadata parsers produce, are not modelled.
\<close>

datatype jsval =
    JUndefined
  | JNull
  | JBool bool
  | JNum bool string
  | JStr string
  | JArr "jsval list"
  | JObj "(string \<times> jsval) list"

datatype js_error = TypeError

fun truthy :: "jsval \<Rightarrow> bool" where
  "truthy JUndefined = False"
| "truthy JNull = False"
| "truthy (JBool b) = b"
| "truthy (JNum nonzero s) = nonzero"
| "truthy (JStr s) = (s \<noteq> [])"
| "truthy (JArr xs) = True"
| "truthy (JObj kvs) = True"

fun typeof :: "jsval \<Rightarrow> string" where
  "typeof JUndefined = ''undefined''"
| "typeof JNull = ''object''"
| "typeof (JBool b) = ''boolean''"
| "typeof (JNum nonzero s) = ''number''"
| "typeof (JStr s) = ''string''"
| "typeof (JArr xs) = ''object''"
| "typeof (JObj kvs) = ''object''"

fun isArray :: "jsval \<Rightarrow> bool" where
  "isArray (JArr xs) = True"
| "isArray v = False"

fun nullish :: "jsval \<Rightarrow> bool" where
  "nullish JUndefined = True"
| "nullish JNull = True"
| "nullish v = False"

text \<open>
  \<open>v.k\<close> for the keys the validator reads (\<open>id\<close>, \<open>version\<close>, \<open>message\<close>,
  \<open>service\<close>, \<open>references\<close>): none of them is a built-in property of a string, an
  array, a number or a boolean, nor inherited by a plain object.
\<close>

fun get_prop :: "jsval \<Rightarrow> string \<Rightarrow> js_error + jsval" where
  "get_prop JUndefined k = Inl TypeError"
| "get_prop JNull k = Inl TypeError"
| "get_prop (JObj kvs) k = Inr (case map_of kvs k of None \<Rightarrow> JUndefined | Some v \<Rightarrow> v)"
| "get_prop v k = Inr JUndefined"

text \<open>The characters of a value that \<open>typeof\<close> has found to be a string.\<close>

fun the_string :: "jsval \<Rightarrow> string" where
  "the_string (JStr s) = s"
| "the_string v = []"

text \<open>The elements of an array value, as \<open>forEach\<close> visits them.\<close>

fun elements :: "jsval \<Rightarrow> jsval list" where
  "elements (JArr xs) = xs"
| "elements v = []"

subsection \<open>Conversion to string\<close>

definition digit_char :: "nat \<Rightarrow> char" where
  "digit_char d = ''0123456789'' ! d"

fun nat_to_string :: "nat \<Rightarrow> string" where
  "nat_to_string n =
     (if n < 10 then [digit_char n] else nat_to_string (n div 10) @ [digit_char (n mod 10)])"

fun join :: "string \<Rightarrow> string list \<Rightarrow> string" where
  "join sep [] = []"
| "join sep [s] = s"
| "join sep (s # t # rest) = s @ sep @ join sep (t # rest)"

text \<open>The results of a list of conversions, or the first error among them.\<close>

fun collect :: "('e + 'a) list \<Rightarrow> 'e + 'a list" where
  "collect [] = Inr []"
| "collect (x # xs) =
     (case x of
        Inl e \<Rightarrow> Inl e
      | Inr a \<Rightarrow> (case collect xs of Inl e \<Rightarrow> Inl e | Inr as \<Rightarrow> Inr (a # as)))"

text \<open>
  The string a template literal or a property key makes of a value. An array joins its
  elements with a comma, \<open>null\<close> and \<open>undefined\<close> elements giving the empty string. A
  plain object gives \<open>[object Object]\<close> through the \<open>toString\<close> it inherits; when it
  has a \<open>toString\<close> property of its own, which no metadata value makes a function, that
  one is skipped, the inherited \<open>valueOf\<close> answers the object itself, and the
  conversion raises a TypeError.
\<close>

fun js_to_string :: "jsval \<Rightarrow> js_error + string" where
  "js_to_string JUndefined = Inr ''undefined''"
| "js_to_string JNull = Inr ''null''"
| "js_to_string (JBool b) = Inr (if b then ''true'' else ''false'')"
| "js_to_string (JNum nonzero s) = Inr s"
| "js_to_string (JStr s) = Inr s"
| "js_to_string (JArr xs) =
     (case collect (map (\<lambda>x. if nullish x then Inr [] else js_to_string x) xs) of
        Inl e \<Rightarrow> Inl e
      | Inr ss \<Rightarrow> Inr (join '','' ss))"
| "js_to_string (JObj kvs) =
     (if map_of kvs ''toString'' \<noteq> None then Inl TypeError else Inr ''[object Object]'')"

section \<open>Data model\<close>

datatype ResourceType =
  Domain | Service | Event | Command | Query | Channel | Flow | Entity | User | Team

fun type_name :: "ResourceType \<Rightarrow> string" where
  "type_name Domain = ''domain''"
| "type_name Service = ''service''"
| "type_name Event = ''event''"
| "type_name Command = ''command''"
| "type_name Query = ''query''"
| "type_name Channel = ''channel''"
| "type_name Flow = ''flow''"
| "type_name Entity = ''entity''"
| "type_name User = ''user''"
| "type_name Team = ''team''"

record CatalogFile =
  path :: string
  relativePath :: string
  resourceType :: ResourceType
  resourceId :: string

text \<open>
  A parsed file. Its field \<open>file\<close> is \<open>catalogFile\<close> here; its \<open>content\<close> and \<open>raw\<close>
  text are never read by the validator.
\<close>

record ParsedFile =
  catalogFile :: CatalogFile
  frontmatter :: "(string \<times> jsval) list"

text \<open>\<open>frontmatter.k\<close>: the frontmatter is always an object.\<close>

definition fm_get :: "(string \<times> jsval) list \<Rightarrow> string \<Rightarrow> jsval" where
  "fm_get fm k = (case map_of fm k of None \<Rightarrow> JUndefined | Some v \<Rightarrow> v)"

text \<open>
  A \<open>Set<string>\<close> in insertion order, which is the order \<open>Array.from\<close> lists it in.
\<close>

type_synonym VersionSet = "string list"

definition set_add :: "string \<Rightarrow> VersionSet \<Rightarrow> VersionSet" where
  "set_add v vs = (if v \<in> set vs then vs else vs @ [v])"

text \<open>
  The index is the nested plain object \<open>index[resourceType][resourceId]\<close>. At the first
  level the keys are the ten resource types, none of which names an inherited member. At
  the second level the keys are resource ids, arbitrary strings: the model keeps the own
  properties as a finite map, and a read of a key that is not an own property finds the
  member of that name that every object inherits from \<open>Object.prototype\<close>, if there is
  one. Each inherited member is listed with the \<open>length\<close> that \<open>Array.from\<close> reads
  of it: the number of parameters of a function, and none (zero) for \<open>__proto__\<close>,
  which is the prototype object itself.
\<close>

type_synonym ResourceIndex = "ResourceType \<Rightarrow> (string \<Rightarrow> VersionSet option) option"

definition object_prototype :: "(string \<times> nat) list" where
  "object_prototype =
     [(''constructor'', 1), (''__defineGetter__'', 2), (''__defineSetter__'', 2),
      (''hasOwnProperty'', 1), (''__lookupGetter__'', 1), (''__lookupSetter__'', 1),
      (''isPrototypeOf'', 1), (''propertyIsEnumerable'', 1), (''toString'', 0),
      (''valueOf'', 0), (''__proto__'', 0), (''toLocaleString'', 0)]"

text \<open>What a read \<open>index[resourceType][key]\<close> finds, when it finds anything.\<close>

datatype member = SetOf VersionSet | Inherited nat

definition get_member :: "(string \<Rightarrow> VersionSet option) \<Rightarrow> string \<Rightarrow> member option" where
  "get_member byId key =
     (case byId key of
        Some vs \<Rightarrow> Some (SetOf vs)
      | None \<Rightarrow> map_option Inherited (map_of object_prototype key))"

section \<open>buildResourceIndex\<close>

text \<open>
  One iteration of the loop over the parsed files. Where the key names an inherited
  member, the guard \<open>!index[resourceType][resourceId]\<close> sees that member, no set is
  created, and the call of its \<open>add\<close>, which it does not have, raises a TypeError.
\<close>

definition index_file :: "ResourceIndex \<Rightarrow> ParsedFile \<Rightarrow> js_error + ResourceIndex" where
  "index_file index parsedFile =
     (let fm = frontmatter parsedFile;
          rt = resourceType (catalogFile parsedFile);
          rid = (if (rt = User \<or> rt = Team \<or> rt = Domain) \<and> truthy (fm_get fm ''id'')
                    \<and> typeof (fm_get fm ''id'') = ''string''
                 then the_string (fm_get fm ''id'')
                 else resourceId (catalogFile parsedFile));
          byId = (case index rt of None \<Rightarrow> Map.empty | Some m \<Rightarrow> m);
          v = (if truthy (fm_get fm ''version'') \<and> typeof (fm_get fm ''version'') = ''string''
               then the_string (fm_get fm ''version'')
               else ''latest'')
      in case get_member byId rid of
           None \<Rightarrow> Inr (index(rt \<mapsto> byId(rid \<mapsto> set_add v [])))
         | Some (SetOf versions) \<Rightarrow> Inr (index(rt \<mapsto> byId(rid \<mapsto> set_add v versions)))
         | Some (Inherited n) \<Rightarrow> Inl TypeError)"

fun index_files :: "ResourceIndex \<Rightarrow> ParsedFile list \<Rightarrow> js_error + ResourceIndex" where
  "index_files index [] = Inr index"
| "index_files index (parsedFile # rest) =
     (case index_file index parsedFile of
        Inl e \<Rightarrow> Inl e
      | Inr index' \<Rightarrow> index_files index' rest)"

definition buildResourceIndex :: "ParsedFile list \<Rightarrow> js_error + ResourceIndex" where
  "buildResourceIndex parsedFiles = index_files Map.empty parsedFiles"

section \<open>The semver package\<close>

text \<open>
  The validator calls two functions of the semver package, a dependency that is not part
  of the repository: \<open>semver.valid\<close> and \<open>semver.satisfies\<close>. On strings they are a
  parameter of the model. Neither raises: \<open>valid\<close> answers \<open>null\<close> for what it
  cannot parse, which includes every value that is not a string, and \<open>satisfies\<close>
  answers \<open>false\<close> for a version it cannot parse and for a range it cannot build.
\<close>

record semver =
  valid :: "string \<Rightarrow> bool"
  satisfies :: "string \<Rightarrow> string \<Rightarrow> bool"

fun js_valid :: "semver \<Rightarrow> jsval \<Rightarrow> bool" where
  "js_valid sv (JStr v) = valid sv v"
| "js_valid sv v = False"

fun js_satisfies :: "semver \<Rightarrow> jsval \<Rightarrow> jsval \<Rightarrow> bool" where
  "js_satisfies sv (JStr v) (JStr r) = satisfies sv v r"
| "js_satisfies sv v r = False"

subsection \<open>A fragment of the semver package\<close>

text \<open>
  Modelled from the spec: the semver package is absent from the sources, and the spec
  asks for "standard semver range semantics". This is the fragment of the package's
  documented behaviour that the examples of the spec need: a version is three numeric
  identifiers \<open>MAJOR.MINOR.PATCH\<close> without leading zeros; a range is the empty string
  or one partial version (with \<open>x\<close>, \<open>X\<close> or \<open>*\<close> for a missing part), alone or after a
  caret or a tilde. Whatever lies outside the fragment (prerelease and build tags,
  comparison operators, unions) is answered as invalid or unsatisfied. The general
  theorems below hold for every value of type \<open>semver\<close>.
\<close>

definition digit_val :: "char \<Rightarrow> nat" where
  "digit_val c = length (takeWhile (\<lambda>d. d \<noteq> c) ''0123456789'')"

definition is_digit :: "char \<Rightarrow> bool" where
  "is_digit c = (c \<in> set ''0123456789'')"

fun split_on :: "char \<Rightarrow> string \<Rightarrow> string list" where
  "split_on d [] = [[]]"
| "split_on d (c # cs) =
     (if c = d then [] # split_on d cs
      else (case split_on d cs of [] \<Rightarrow> [[c]] | p # ps \<Rightarrow> (c # p) # ps))"

definition parse_numeric :: "string \<Rightarrow> nat option" where
  "parse_numeric s =
     (if s \<noteq> [] \<and> list_all is_digit s \<and> (length s = 1 \<or> hd s \<noteq> CHR ''0'')
      then Some (foldl (\<lambda>n c. 10 * n + digit_val c) 0 s)
      else None)"

type_synonym version = "nat \<times> nat \<times> nat"

definition parse_version :: "string \<Rightarrow> version option" where
  "parse_version s =
     (case map parse_numeric (split_on (CHR ''.'') s) of
        [Some a, Some b, Some c] \<Rightarrow> Some (a, b, c)
      | _ \<Rightarrow> None)"

datatype xr = Wild | Num nat

definition parse_xr :: "string \<Rightarrow> xr option" where
  "parse_xr s =
     (if s = ''x'' \<or> s = ''X'' \<or> s = ''*'' then Some Wild else map_option Num (parse_numeric s))"

definition parse_partial :: "string \<Rightarrow> (xr \<times> xr \<times> xr) option" where
  "parse_partial s =
     (case map parse_xr (split_on (CHR ''.'') s) of
        [Some a] \<Rightarrow> Some (a, Wild, Wild)
      | [Some a, Some b] \<Rightarrow> Some (a, b, Wild)
      | [Some a, Some b, Some c] \<Rightarrow> Some (a, b, c)
      | _ \<Rightarrow> None)"

text \<open>A range as an inclusive lower bound and an optional exclusive upper bound.\<close>

type_synonym bounds = "version \<times> version option"

fun x_range :: "xr \<times> xr \<times> xr \<Rightarrow> bounds" where
  "x_range (Wild, b, c) = ((0, 0, 0), None)"
| "x_range (Num M, Wild, c) = ((M, 0, 0), Some (Suc M, 0, 0))"
| "x_range (Num M, Num m, Wild) = ((M, m, 0), Some (M, Suc m, 0))"
| "x_range (Num M, Num m, Num p) = ((M, m, p), Some (M, m, Suc p))"

fun tilde_range :: "xr \<times> xr \<times> xr \<Rightarrow> bounds" where
  "tilde_range (Num M, Num m, Num p) = ((M, m, p), Some (M, Suc m, 0))"
| "tilde_range r = x_range r"

fun caret_range :: "xr \<times> xr \<times> xr \<Rightarrow> bounds" where
  "caret_range (Num M, Num m, Wild) =
     (if M > 0 then ((M, m, 0), Some (Suc M, 0, 0)) else ((0, m, 0), Some (0, Suc m, 0)))"
| "caret_range (Num M, Num m, Num p) =
     (if M > 0 then ((M, m, p), Some (Suc M, 0, 0))
      else if m > 0 then ((0, m, p), Some (0, Suc m, 0))
      else ((0, 0, p), Some (0, 0, Suc p)))"
| "caret_range r = x_range r"

definition parse_range :: "string \<Rightarrow> bounds option" where
  "parse_range r =
     (case r of
        [] \<Rightarrow> Some ((0, 0, 0), None)
      | c # cs \<Rightarrow>
          if c = CHR ''^'' then map_option caret_range (parse_partial cs)
          else if c = CHR ''~'' then map_option tilde_range (parse_partial cs)
          else map_option x_range (parse_partial r))"

fun version_less :: "version \<Rightarrow> version \<Rightarrow> bool" where
  "version_less (a, b, c) (x, y, z) = (a < x \<or> (a = x \<and> (b < y \<or> (b = y \<and> c < z))))"

definition satisfies_core :: "string \<Rightarrow> string \<Rightarrow> bool" where
  "satisfies_core v r =
     (case parse_version v of
        None \<Rightarrow> False
      | Some ver \<Rightarrow>
          (case parse_range r of
             None \<Rightarrow> False
           | Some (lo, hi) \<Rightarrow>
               \<not> version_less ver lo
               \<and> (case hi of None \<Rightarrow> True | Some h \<Rightarrow> version_less ver h)))"

definition semver_core :: semver where
  "semver_core = \<lparr>valid = (\<lambda>s. parse_version s \<noteq> None), satisfies = satisfies_core\<rparr>"

subsection \<open>String operations\<close>

fun startsWith :: "string \<Rightarrow> string \<Rightarrow> bool" where
  "startsWith s [] = True"
| "startsWith [] (p # ps) = False"
| "startsWith (c # cs) (p # ps) = (c = p \<and> startsWith cs ps)"

fun str_includes :: "string \<Rightarrow> string \<Rightarrow> bool" where
  "str_includes [] p = (p = [])"
| "str_includes (c # cs) p = (startsWith (c # cs) p \<or> str_includes cs p)"

text \<open>\<open>s.replace(/\.x/g, '')\<close>: the matches are found left to right and do not overlap.\<close>

fun strip_dot_x :: "string \<Rightarrow> string" where
  "strip_dot_x (a # b # cs) =
     (if a = CHR ''.'' \<and> b = CHR ''x'' then strip_dot_x cs else a # strip_dot_x (b # cs))"
| "strip_dot_x cs = cs"

text \<open>
  \<open>refVersion.includes('.x')\<close> and \<open>refVersion.replace(/\.x/g, '')\<close> on a value of any
  type: a string has both methods, an array has \<open>includes\<close> only, nothing else has either.
\<close>

fun js_includes :: "jsval \<Rightarrow> string \<Rightarrow> js_error + bool" where
  "js_includes (JStr s) p = Inr (str_includes s p)"
| "js_includes (JArr xs) p = Inr (JStr p \<in> set xs)"
| "js_includes v p = Inl TypeError"

fun js_replace_dot_x :: "jsval \<Rightarrow> js_error + string" where
  "js_replace_dot_x (JStr s) = Inr (strip_dot_x s)"
| "js_replace_dot_x v = Inl TypeError"

text \<open>\<open>availableVersion.startsWith(pattern)\<close>: only a string has the method.\<close>

fun js_startsWith :: "jsval \<Rightarrow> string \<Rightarrow> js_error + bool" where
  "js_startsWith (JStr s) p = Inr (startsWith s p)"
| "js_startsWith v p = Inl TypeError"

section \<open>checkResourceExists\<close>

text \<open>
  \<open>resourceVersions.size === 0\<close> and \<open>Array.from(resourceVersions)\<close>: on a set, its
  size and its elements; an inherited member has no \<open>size\<close>, and \<open>Array.from\<close> makes
  of it as many \<open>undefined\<close> as its \<open>length\<close> says.
\<close>

fun size_is_zero :: "member \<Rightarrow> bool" where
  "size_is_zero (SetOf vs) = (length vs = 0)"
| "size_is_zero (Inherited n) = False"

fun array_from :: "member \<Rightarrow> jsval list" where
  "array_from (SetOf vs) = map JStr vs"
| "array_from (Inherited n) = replicate n JUndefined"

text \<open>
  \<open>availableVersions.includes(v)\<close>: the array holds strings and \<open>undefined\<close> only,
  which are compared by value.
\<close>

definition array_includes :: "jsval list \<Rightarrow> jsval \<Rightarrow> bool" where
  "array_includes xs v = (v \<in> set xs)"

text \<open>
  \<open>index[resourceType]?.[ref.id]\<close>: \<open>ref.id\<close> is read, and converted to a property
  key, only when the type has an entry.
\<close>

definition lookup_versions :: "jsval \<Rightarrow> ResourceType \<Rightarrow> ResourceIndex \<Rightarrow> js_error + member option" where
  "lookup_versions ref rt index =
     (case index rt of
        None \<Rightarrow> Inr None
      | Some byId \<Rightarrow>
          (case get_prop ref ''id'' of
             Inl e \<Rightarrow> Inl e
           | Inr i \<Rightarrow>
               (case js_to_string i of
                  Inl e \<Rightarrow> Inl e
                | Inr key \<Rightarrow> Inr (get_member byId key))))"

text \<open>The two loops of the \<open>try\<close> block, each returning at its first match.\<close>

fun satisfies_loop :: "semver \<Rightarrow> jsval list \<Rightarrow> jsval \<Rightarrow> bool" where
  "satisfies_loop sv [] refVersion = False"
| "satisfies_loop sv (availableVersion # rest) refVersion =
     (if js_satisfies sv availableVersion refVersion then True
      else satisfies_loop sv rest refVersion)"

fun startsWith_loop :: "jsval list \<Rightarrow> string \<Rightarrow> js_error + bool" where
  "startsWith_loop [] pattern = Inr False"
| "startsWith_loop (availableVersion # rest) pattern =
     (case js_startsWith availableVersion pattern of
        Inl e \<Rightarrow> Inl e
      | Inr True \<Rightarrow> Inr True
      | Inr False \<Rightarrow> startsWith_loop rest pattern)"

text \<open>The body of the \<open>try\<close> block.\<close>

definition semver_match :: "semver \<Rightarrow> jsval list \<Rightarrow> jsval \<Rightarrow> js_error + bool" where
  "semver_match sv availableVersions refVersion =
     (let semverVersions =
            filter (\<lambda>v. v \<noteq> JStr ''latest'' \<and> js_valid sv v) availableVersions in
      if satisfies_loop sv semverVersions refVersion then Inr True
      else
        (case js_includes refVersion ''.x'' of
           Inl e \<Rightarrow> Inl e
         | Inr False \<Rightarrow> Inr False
         | Inr True \<Rightarrow>
             (case js_replace_dot_x refVersion of
                Inl e \<Rightarrow> Inl e
              | Inr pattern \<Rightarrow> startsWith_loop semverVersions pattern)))"

definition checkResourceExists :: "semver \<Rightarrow> jsval \<Rightarrow> ResourceType \<Rightarrow> ResourceIndex \<Rightarrow> js_error + bool" where
  "checkResourceExists sv ref rt index =
     (case lookup_versions ref rt index of
        Inl e \<Rightarrow> Inl e
      | Inr None \<Rightarrow> Inr False
      | Inr (Some resourceVersions) \<Rightarrow>
          if size_is_zero resourceVersions then Inr False
          else
            (case get_prop ref ''version'' of
               Inl e \<Rightarrow> Inl e
             | Inr refVersion \<Rightarrow>
                 if \<not> truthy refVersion then Inr True
                 else
                   (let availableVersions = array_from resourceVersions in
                    if refVersion = JStr ''latest''
                    then Inr (array_includes availableVersions (JStr ''latest'')
                              \<or> length availableVersions > 0)
                    else if array_includes availableVersions refVersion then Inr True
                    else
                      (case semver_match sv availableVersions refVersion of
                         Inl e \<Rightarrow> Inr (array_includes availableVersions refVersion)
                       | Inr b \<Rightarrow> Inr b))))"

section \<open>extractReferences\<close>

record ReferenceInfo =
  ref :: jsval
  possibleTypes :: "ResourceType list"
  field :: string

text \<open>A list field whose items are the references themselves.\<close>

definition list_refs :: "(string \<times> jsval) list \<Rightarrow> string \<Rightarrow> ResourceType list \<Rightarrow> ReferenceInfo list" where
  "list_refs fm k types =
     (if truthy (fm_get fm k) \<and> isArray (fm_get fm k)
      then map (\<lambda>r. \<lparr>ref = r, possibleTypes = types, field = k\<rparr>) (elements (fm_get fm k))
      else [])"

text \<open>A list field whose items are bare ids, each wrapped into \<open>{ id: item }\<close>.\<close>

definition id_refs :: "(string \<times> jsval) list \<Rightarrow> string \<Rightarrow> ResourceType list \<Rightarrow> ReferenceInfo list" where
  "id_refs fm k types =
     (if truthy (fm_get fm k) \<and> isArray (fm_get fm k)
      then map (\<lambda>x. \<lparr>ref = JObj [(''id'', x)], possibleTypes = types, field = k\<rparr>)
             (elements (fm_get fm k))
      else [])"

definition indexed_field :: "string \<Rightarrow> nat \<Rightarrow> string \<Rightarrow> string" where
  "indexed_field k i sub = k @ ''['' @ nat_to_string i @ ''].'' @ sub"

text \<open>The callbacks over a flow's steps and an entity's properties, from position \<open>i\<close> on.\<close>

fun step_refs :: "nat \<Rightarrow> jsval list \<Rightarrow> js_error + ReferenceInfo list" where
  "step_refs i [] = Inr []"
| "step_refs i (step # rest) =
     (case get_prop step ''message'' of
        Inl e \<Rightarrow> Inl e
      | Inr m \<Rightarrow>
          (case get_prop step ''service'' of
             Inl e \<Rightarrow> Inl e
           | Inr s \<Rightarrow>
               (case step_refs (Suc i) rest of
                  Inl e \<Rightarrow> Inl e
                | Inr others \<Rightarrow>
                    Inr ((if truthy m
                          then [\<lparr>ref = m, possibleTypes = [Event, Command, Query],
                                 field = indexed_field ''steps'' i ''message''\<rparr>]
                          else [])
                         @ (if truthy s
                            then [\<lparr>ref = s, possibleTypes = [Service],
                                   field = indexed_field ''steps'' i ''service''\<rparr>]
                            else [])
                         @ others))))"

fun property_refs :: "nat \<Rightarrow> jsval list \<Rightarrow> js_error + ReferenceInfo list" where
  "property_refs i [] = Inr []"
| "property_refs i (prop # rest) =
     (case get_prop prop ''references'' of
        Inl e \<Rightarrow> Inl e
      | Inr r \<Rightarrow>
          (case property_refs (Suc i) rest of
             Inl e \<Rightarrow> Inl e
           | Inr others \<Rightarrow>
               Inr ((if truthy r
                     then [\<lparr>ref = JObj [(''id'', r)], possibleTypes = [Entity],
                            field = indexed_field ''properties'' i ''references''\<rparr>]
                     else [])
                    @ others)))"

definition extractReferences :: "ParsedFile \<Rightarrow> js_error + ReferenceInfo list" where
  "extractReferences parsedFile =
     (let fm = frontmatter parsedFile;
          rt = resourceType (catalogFile parsedFile);
          domainRefs =
            (if rt = Domain
             then list_refs fm ''services'' [Service] @ list_refs fm ''domains'' [Domain]
                  @ list_refs fm ''entities'' [Entity]
             else []);
          serviceRefs =
            (if rt = Service
             then list_refs fm ''sends'' [Event, Command, Query]
                  @ list_refs fm ''receives'' [Event, Command, Query]
                  @ list_refs fm ''entities'' [Entity]
             else []);
          ownerRefs = id_refs fm ''owners'' [User, Team];
          memberRefs = (if rt = Team then id_refs fm ''members'' [User] else [])
      in
        (case (if rt = Flow \<and> truthy (fm_get fm ''steps'') \<and> isArray (fm_get fm ''steps'')
               then step_refs 0 (elements (fm_get fm ''steps'')) else Inr []) of
           Inl e \<Rightarrow> Inl e
         | Inr flowRefs \<Rightarrow>
             (case (if rt = Entity \<and> truthy (fm_get fm ''properties'')
                       \<and> isArray (fm_get fm ''properties'')
                    then property_refs 0 (elements (fm_get fm ''properties'')) else Inr []) of
                Inl e \<Rightarrow> Inl e
              | Inr entityRefs \<Rightarrow>
                  Inr (domainRefs @ serviceRefs @ flowRefs @ entityRefs @ ownerRefs
                       @ memberRefs))))"

section \<open>validateReferences\<close>

record ValidationError =
  err_type :: string
  err_resource :: string
  err_field :: string
  err_message :: string
  err_file :: string
  err_rule :: string

text \<open>\<open>possibleTypes.some(...)\<close>: stops at the first type that resolves the reference.\<close>

fun some_type :: "semver \<Rightarrow> jsval \<Rightarrow> ResourceIndex \<Rightarrow> ResourceType list \<Rightarrow> js_error + bool" where
  "some_type sv r index [] = Inr False"
| "some_type sv r index (t # ts) =
     (case checkResourceExists sv r t index of
        Inl e \<Rightarrow> Inl e
      | Inr True \<Rightarrow> Inr True
      | Inr False \<Rightarrow> some_type sv r index ts)"

text \<open>The double quote, which a term cannot hold inside a string literal.\<close>

definition dquote :: string where
  "dquote = [CHR 0x22]"

text \<open>The error pushed for a reference that was not found.\<close>

definition reference_error :: "ParsedFile \<Rightarrow> ReferenceInfo \<Rightarrow> js_error + ValidationError" where
  "reference_error parsedFile info =
     (case get_prop (ref info) ''version'' of
        Inl e \<Rightarrow> Inl e
      | Inr version \<Rightarrow>
          (case (if truthy version
                 then (case js_to_string version of
                         Inl e \<Rightarrow> Inl e
                       | Inr s \<Rightarrow> Inr ('' (version: '' @ s @ '')''))
                 else Inr []) of
             Inl e \<Rightarrow> Inl e
           | Inr versionStr \<Rightarrow>
               (case get_prop (ref info) ''id'' of
                  Inl e \<Rightarrow> Inl e
                | Inr i \<Rightarrow>
                    (case js_to_string i of
                       Inl e \<Rightarrow> Inl e
                     | Inr idStr \<Rightarrow>
                         (let typeStr = (if length (possibleTypes info) = 1
                                         then type_name (possibleTypes info ! 0)
                                         else join ''/'' (map type_name (possibleTypes info)));
                              rule = (if field info = ''owners'' then ''refs/owner-exists''
                                      else if truthy version then ''refs/valid-version-range''
                                      else ''refs/resource-exists'')
                          in Inr \<lparr>err_type = ''reference'',
                                  err_resource = type_name (resourceType (catalogFile parsedFile))
                                                 @ ''/'' @ resourceId (catalogFile parsedFile),
                                  err_field = field info,
                                  err_message = ''Referenced '' @ typeStr @ '' '' @ dquote @ idStr
                                                @ dquote @ versionStr @ '' does not exist'',
                                  err_file = relativePath (catalogFile parsedFile),
                                  err_rule = rule\<rparr>)))))"

text \<open>The inner loop over the references of one file, \<open>errors\<close> being what was pushed so far.\<close>

fun check_references ::
  "semver \<Rightarrow> ResourceIndex \<Rightarrow> ParsedFile \<Rightarrow> ReferenceInfo list \<Rightarrow> ValidationError list
   \<Rightarrow> js_error + ValidationError list" where
  "check_references sv index parsedFile [] errors = Inr errors"
| "check_references sv index parsedFile (info # rest) errors =
     (case some_type sv (ref info) index (possibleTypes info) of
        Inl e \<Rightarrow> Inl e
      | Inr True \<Rightarrow> check_references sv index parsedFile rest errors
      | Inr False \<Rightarrow>
          (case reference_error parsedFile info of
             Inl e \<Rightarrow> Inl e
           | Inr err \<Rightarrow> check_references sv index parsedFile rest (errors @ [err])))"

text \<open>The outer loop over the parsed files.\<close>

fun validate_files ::
  "semver \<Rightarrow> ResourceIndex \<Rightarrow> ParsedFile list \<Rightarrow> ValidationError list
   \<Rightarrow> js_error + ValidationError list" where
  "validate_files sv index [] errors = Inr errors"
| "validate_files sv index (parsedFile # rest) errors =
     (case extractReferences parsedFile of
        Inl e \<Rightarrow> Inl e
      | Inr references \<Rightarrow>
          (case check_references sv index parsedFile references errors of
             Inl e \<Rightarrow> Inl e
           | Inr errors' \<Rightarrow> validate_files sv index rest errors'))"

definition validateReferences :: "semver \<Rightarrow> ParsedFile list \<Rightarrow> js_error + ValidationError list" where
  "validateReferences sv parsedFiles =
     (case buildResourceIndex parsedFiles of
        Inl e \<Rightarrow> Inl e
      | Inr index \<Rightarrow> validate_files sv index parsedFiles [])"

section \<open>Notions used to state the properties\<close>

text \<open>The reference object \<open>{ id: i }\<close> or \<open>{ id: i, version: v }\<close>, both fields strings.\<close>

definition resource_reference :: "string \<Rightarrow> string option \<Rightarrow> jsval" where
  "resource_reference i v =
     JObj ((''id'', JStr i) # (case v of None \<Rightarrow> [] | Some s \<Rightarrow> [(''version'', JStr s)]))"

text \<open>
  A value reads as the typed reference with id \<open>i\<close> and optional version \<open>vo\<close>:
  its \<open>id\<close> is that string and its \<open>version\<close> is that string, or is absent.
\<close>

definition is_reference :: "jsval \<Rightarrow> string \<Rightarrow> string option \<Rightarrow> bool" where
  "is_reference r i vo \<longleftrightarrow>
     get_prop r ''id'' = Inr (JStr i)
     \<and> get_prop r ''version'' = Inr (case vo of None \<Rightarrow> JUndefined | Some v \<Rightarrow> JStr v)"

text \<open>
  The version set the index holds for a (type, id) as a property of its own: the entry the
  builder made for it, if it made one.
\<close>

definition versions_at :: "ResourceIndex \<Rightarrow> ResourceType \<Rightarrow> string \<Rightarrow> VersionSet option" where
  "versions_at index t i = (case index t of None \<Rightarrow> None | Some byId \<Rightarrow> byId i)"

text \<open>
  What the read \<open>index[t]?.[key]\<close> finds: the entry, or else a member that every object
  inherits when \<open>key\<close> names one and the type has an entry, or else nothing.
\<close>

definition index_lookup :: "ResourceIndex \<Rightarrow> ResourceType \<Rightarrow> string \<Rightarrow> member option" where
  "index_lookup index t key = (case index t of None \<Rightarrow> None | Some byId \<Rightarrow> get_member byId key)"

text \<open>The names of the members that every object inherits.\<close>

definition inherited_names :: "string list" where
  "inherited_names = map fst object_prototype"

text \<open>
  The key a resource is indexed under, the value the builder's \<open>resourceId\<close> variable ends
  with: the frontmatter id of a user, team or domain when that is a non-empty string, and the
  storage-derived id otherwise.
\<close>

definition canonical_id :: "ParsedFile \<Rightarrow> string" where
  "canonical_id pf =
     (case fm_get (frontmatter pf) ''id'' of
        JStr s \<Rightarrow>
          if resourceType (catalogFile pf) \<in> {User, Team, Domain} \<and> s \<noteq> [] then s
          else resourceId (catalogFile pf)
      | _ \<Rightarrow> resourceId (catalogFile pf))"

text \<open>
  The canonical id as the specification words it: the frontmatter id of a user, team or
  domain whenever that is a string, and the storage-derived id otherwise.
\<close>

definition spec_canonical_id :: "ParsedFile \<Rightarrow> string" where
  "spec_canonical_id pf =
     (case fm_get (frontmatter pf) ''id'' of
        JStr s \<Rightarrow>
          if resourceType (catalogFile pf) \<in> {User, Team, Domain} then s
          else resourceId (catalogFile pf)
      | _ \<Rightarrow> resourceId (catalogFile pf))"

text \<open>The token a resource adds to its version set.\<close>

definition declared_version :: "ParsedFile \<Rightarrow> string" where
  "declared_version pf =
     (case fm_get (frontmatter pf) ''version'' of
        JStr s \<Rightarrow> if s = [] then ''latest'' else s
      | _ \<Rightarrow> ''latest'')"

text \<open>
  A value that converts to a string: anything but an object with a \<open>toString\<close> property of
  its own, or an array that holds such an object at any depth.
\<close>

fun printable :: "jsval \<Rightarrow> bool" where
  "printable (JObj kvs) = (map_of kvs ''toString'' = None)"
| "printable (JArr xs) = list_all printable xs"
| "printable v = True"

text \<open>
  A reference the matcher and the error message can read: neither \<open>null\<close> nor
  \<open>undefined\<close>, with an id that converts to a string and a version that is falsy or converts
  to a string. Nothing is asked of the types of the id and of the version.
\<close>

definition sound_reference :: "jsval \<Rightarrow> bool" where
  "sound_reference r =
     (case get_prop r ''id'' of
        Inl e \<Rightarrow> False
      | Inr i \<Rightarrow>
          printable i
          \<and> (case get_prop r ''version'' of
                Inl e \<Rightarrow> False
              | Inr v \<Rightarrow> \<not> truthy v \<or> printable v))"

text \<open>No item of a list value is \<open>null\<close> or \<open>undefined\<close> (true of a value that is not a list).\<close>

definition no_nullish_items :: "jsval \<Rightarrow> bool" where
  "no_nullish_items v = list_all (\<lambda>x. \<not> nullish x) (elements v)"

text \<open>The items of a frontmatter field that is a list; none for any other value.\<close>

definition items :: "ParsedFile \<Rightarrow> string \<Rightarrow> jsval list" where
  "items pf k = elements (fm_get (frontmatter pf) k)"

text \<open>
  A step of a flow that can be read: neither \<open>null\<close> nor \<open>undefined\<close>, its message and
  its service each falsy or a sound reference.
\<close>

definition sound_step :: "jsval \<Rightarrow> bool" where
  "sound_step step =
     (case get_prop step ''message'' of
        Inl e \<Rightarrow> False
      | Inr m \<Rightarrow>
          (\<not> truthy m \<or> sound_reference m)
          \<and> (case get_prop step ''service'' of
                Inl e \<Rightarrow> False
              | Inr s \<Rightarrow> \<not> truthy s \<or> sound_reference s))"

text \<open>
  A property of an entity that can be read: neither \<open>null\<close> nor \<open>undefined\<close>, with a
  \<open>references\<close> value that converts to a string.
\<close>

definition sound_property :: "jsval \<Rightarrow> bool" where
  "sound_property prop =
     (case get_prop prop ''references'' of Inl e \<Rightarrow> False | Inr r \<Rightarrow> printable r)"

text \<open>
  The shape of a frontmatter that the validator reads without raising, stated on the data.
  Only the lists that the extractor walks for the type of the resource are constrained:
  their items are sound references (sound steps for a flow, sound properties for an entity),
  and the owners, and the members of a team, convert to strings. Nothing is asked of a field
  that is not a list, nor of a list that the type of the resource does not use.
\<close>

definition well_shaped :: "ParsedFile \<Rightarrow> bool" where
  "well_shaped pf =
     (let rt = resourceType (catalogFile pf) in
      (rt \<noteq> Domain
         \<or> list_all sound_reference (items pf ''services'' @ items pf ''domains''
                                      @ items pf ''entities''))
      \<and> (rt \<noteq> Service
           \<or> list_all sound_reference (items pf ''sends'' @ items pf ''receives''
                                        @ items pf ''entities''))
      \<and> (rt \<noteq> Flow \<or> list_all sound_step (items pf ''steps''))
      \<and> (rt \<noteq> Entity \<or> list_all sound_property (items pf ''properties''))
      \<and> list_all printable (items pf ''owners'')
      \<and> (rt \<noteq> Team \<or> list_all printable (items pf ''members'')))"

text \<open>Some candidate type resolves the reference.\<close>

definition resolves :: "semver \<Rightarrow> ResourceIndex \<Rightarrow> ReferenceInfo \<Rightarrow> bool" where
  "resolves sv index info =
     (\<exists>t\<in>set (possibleTypes info). checkResourceExists sv (ref info) t index = Inr True)"

text \<open>The references extracted from a file (none when the extraction raises).\<close>

definition references_of :: "ParsedFile \<Rightarrow> ReferenceInfo list" where
  "references_of pf = (case extractReferences pf of Inl e \<Rightarrow> [] | Inr rs \<Rightarrow> rs)"

text \<open>One error for each extracted reference that no candidate type resolves, in extraction order.\<close>

definition unresolved_errors :: "semver \<Rightarrow> ResourceIndex \<Rightarrow> ParsedFile \<Rightarrow> ValidationError list" where
  "unresolved_errors sv index pf =
     map (\<lambda>info. projr (reference_error pf info))
       (filter (\<lambda>info. \<not> resolves sv index info) (references_of pf))"

text \<open>The frontmatter field a reference's label names: the label up to its first bracket.\<close>

definition field_root :: "string \<Rightarrow> string" where
  "field_root f = takeWhile (\<lambda>c. c \<noteq> CHR ''['') f"

text \<open>
  The four parts of the extractor's result: the references of the lists of a domain and of
  a service, of the steps of a flow, of the properties of an entity, and of the owners and
  members.
\<close>

definition plain_part :: "ParsedFile \<Rightarrow> ReferenceInfo list" where
  "plain_part pf =
     (if resourceType (catalogFile pf) = Domain
      then list_refs (frontmatter pf) ''services'' [Service]
           @ list_refs (frontmatter pf) ''domains'' [Domain]
           @ list_refs (frontmatter pf) ''entities'' [Entity]
      else [])
     @ (if resourceType (catalogFile pf) = Service
        then list_refs (frontmatter pf) ''sends'' [Event, Command, Query]
             @ list_refs (frontmatter pf) ''receives'' [Event, Command, Query]
             @ list_refs (frontmatter pf) ''entities'' [Entity]
        else [])"

definition flow_part :: "ParsedFile \<Rightarrow> js_error + ReferenceInfo list" where
  "flow_part pf =
     (if resourceType (catalogFile pf) = Flow
      then step_refs 0 (items pf ''steps'') else Inr [])"

definition entity_part :: "ParsedFile \<Rightarrow> js_error + ReferenceInfo list" where
  "entity_part pf =
     (if resourceType (catalogFile pf) = Entity
      then property_refs 0 (items pf ''properties'') else Inr [])"

definition id_part :: "ParsedFile \<Rightarrow> ReferenceInfo list" where
  "id_part pf =
     id_refs (frontmatter pf) ''owners'' [User, Team]
     @ (if resourceType (catalogFile pf) = Team
        then id_refs (frontmatter pf) ''members'' [User] else [])"

text \<open>A parsed file as the test suite's \<open>createParsedFile\<close> builds it.\<close>

definition parsed :: "ResourceType \<Rightarrow> string \<Rightarrow> (string \<times> jsval) list \<Rightarrow> ParsedFile" where
  "parsed t i fm =
     \<lparr>catalogFile = \<lparr>path = ''/test/'' @ type_name t @ ''s/'' @ i @ ''/index.mdx'',
                     relativePath = type_name t @ ''s/'' @ i @ ''/index.mdx'',
                     resourceType = t, resourceId = i\<rparr>,
      frontmatter = fm\<rparr>"

section \<open>Example catalogs\<close>

text \<open>An event that declares no version.\<close>

definition unversioned_catalog :: "ParsedFile list" where
  "unversioned_catalog = [parsed Event ''StockUpdate'' []]"

text \<open>An event whose declared version is not a semantic version.\<close>

definition fruit_catalog :: "ParsedFile list" where
  "fruit_catalog = [parsed Event ''OutOfStock'' [(''version'', JStr ''banana'')]]"

text \<open>A command present in two versions.\<close>

definition inventory_catalog :: "ParsedFile list" where
  "inventory_catalog =
     [parsed Command ''GetInventoryList'' [(''version'', JStr ''0.0.1'')],
      parsed Command ''GetInventoryList'' [(''version'', JStr ''0.0.5'')]]"

text \<open>A user stored as \<open>aSmith\<close> whose frontmatter id is \<open>asmith\<close>.\<close>

definition aliased_user :: ParsedFile where
  "aliased_user = parsed User ''aSmith'' [(''id'', JStr ''asmith'')]"

text \<open>A user and a team whose frontmatter id is the empty string.\<close>

definition empty_id_user :: ParsedFile where
  "empty_id_user = parsed User ''aSmith'' [(''id'', JStr [])]"

definition empty_id_team :: ParsedFile where
  "empty_id_team = parsed Team ''platform'' [(''id'', JStr [])]"




text \<open>
  A domain that names, among its sub-domains, the domain \<open>constructor\<close>, which no
  resource of the catalog is; the same with \<open>toString\<close> and an empty version; and the same
  with \<open>marketing\<close>, together with the error reported for it.
\<close>

definition inherited_reference_catalog :: "ParsedFile list" where
  "inherited_reference_catalog =
     [parsed Domain ''sales'' [(''domains'', JArr [resource_reference ''constructor'' None])]]"

definition inherited_empty_version_catalog :: "ParsedFile list" where
  "inherited_empty_version_catalog =
     [parsed Domain ''sales'' [(''domains'', JArr [resource_reference ''toString'' (Some [])])]]"

definition missing_reference_catalog :: "ParsedFile list" where
  "missing_reference_catalog =
     [parsed Domain ''sales'' [(''domains'', JArr [resource_reference ''marketing'' None])]]"

definition missing_domain_error :: ValidationError where
  "missing_domain_error =
     \<lparr>err_type = ''reference'', err_resource = ''domain/sales'', err_field = ''domains'',
      err_message = ''Referenced domain '' @ dquote @ ''marketing'' @ dquote
                    @ '' does not exist'',
      err_file = ''domains/sales/index.mdx'', err_rule = ''refs/resource-exists''\<rparr>"



text \<open>
  A domain naming a service version and an owner that do not exist, and the two errors
  reported for it.
\<close>

definition sales_catalog :: "ParsedFile list" where
  "sales_catalog =
     [parsed Domain ''sales''
        [(''services'', JArr [resource_reference ''order-service'' (Some ''2.0.0'')]),
         (''owners'', JArr [JStr ''jane-doe''])]]"

definition sales_service_error :: ValidationError where
  "sales_service_error =
     \<lparr>err_type = ''reference'', err_resource = ''domain/sales'', err_field = ''services'',
      err_message = ''Referenced service '' @ dquote @ ''order-service'' @ dquote
                    @ '' (version: 2.0.0) does not exist'',
      err_file = ''domains/sales/index.mdx'', err_rule = ''refs/valid-version-range''\<rparr>"

definition sales_owner_error :: ValidationError where
  "sales_owner_error =
     \<lparr>err_type = ''reference'', err_resource = ''domain/sales'', err_field = ''owners'',
      err_message = ''Referenced user/team '' @ dquote @ ''jane-doe'' @ dquote
                    @ '' does not exist'',
      err_file = ''domains/sales/index.mdx'', err_rule = ''refs/owner-exists''\<rparr>"

text \<open>
  A flow whose first step names a message by a reference with a number for an id and a
  number for a version, and whose second step names a service by a bare string; and the two
  errors reported for it.
\<close>

definition untyped_reference_flow :: ParsedFile where
  "untyped_reference_flow =
     parsed Flow ''checkout''
       [(''steps'', JArr [JObj [(''message'', JObj [(''id'', JNum True ''5''),
                                                     (''version'', JNum True ''2'')])],
                          JObj [(''service'', JStr ''billing'')]])]"

definition numeric_reference_error :: ValidationError where
  "numeric_reference_error =
     \<lparr>err_type = ''reference'', err_resource = ''flow/checkout'',
      err_field = ''steps[0].message'',
      err_message = ''Referenced event/command/query '' @ dquote @ ''5'' @ dquote
                    @ '' (version: 2) does not exist'',
      err_file = ''flows/checkout/index.mdx'', err_rule = ''refs/valid-version-range''\<rparr>"

definition bare_string_error :: ValidationError where
  "bare_string_error =
     \<lparr>err_type = ''reference'', err_resource = ''flow/checkout'',
      err_field = ''steps[1].service'',
      err_message = ''Referenced service '' @ dquote @ ''undefined'' @ dquote
                    @ '' does not exist'',
      err_file = ''flows/checkout/index.mdx'', err_rule = ''refs/resource-exists''\<rparr>"

text \<open>
  A domain naming a missing service with an empty version, and the error reported for it.
\<close>

definition empty_version_catalog :: "ParsedFile list" where
  "empty_version_catalog =
     [parsed Domain ''sales''
        [(''services'', JArr [resource_reference ''order-service'' (Some [])])]]"

definition empty_version_error :: ValidationError where
  "empty_version_error =
     \<lparr>err_type = ''reference'', err_resource = ''domain/sales'', err_field = ''services'',
      err_message = ''Referenced service '' @ dquote @ ''order-service'' @ dquote
                    @ '' does not exist'',
      err_file = ''domains/sales/index.mdx'', err_rule = ''refs/resource-exists''\<rparr>"


text \<open>A flow whose list of steps holds \<open>null\<close>.\<close>

definition null_step_flow :: ParsedFile where
  "null_step_flow = parsed Flow ''user-registration'' [(''steps'', JArr [JNull])]"

text \<open>An entity whose list of properties holds \<open>null\<close>.\<close>

definition null_property_entity :: ParsedFile where
  "null_property_entity = parsed Entity ''order'' [(''properties'', JArr [JNull])]"

text \<open>A service owned by an object that has a \<open>toString\<close> property.\<close>

definition unprintable_owner_service :: ParsedFile where
  "unprintable_owner_service =
     parsed Service ''billing'' [(''owners'', JArr [JObj [(''toString'', JStr ''x'')]])]"

text \<open>
  A service whose fields have the wrong types, none of those it uses a list; its list of
  steps, which a service does not use, holds \<open>null\<close>.
\<close>

definition misshaped_service :: ParsedFile where
  "misshaped_service =
     parsed Service ''user-service''
       [(''version'', JNum True ''2''), (''sends'', JStr ''user-updated''), (''receives'', JNull),
        (''steps'', JArr [JNull]),
        (''owners'', JObj [(''id'', JStr ''john-doe'')])]"

text \<open>
  A flow whose steps and owners are lists of items of the wrong types, none of them
  \<open>null\<close> among the steps; its list of services, which a flow does not use, holds \<open>null\<close>.
  Then the reference its third step yields, and the errors reported for it.
\<close>

definition mixed_items_flow :: ParsedFile where
  "mixed_items_flow =
     parsed Flow ''user-registration''
       [(''steps'', JArr [JNum True ''3'', JStr ''step'', JObj [(''message'', JNum True ''5'')]]),
        (''services'', JArr [JNull]),
        (''owners'', JArr [JNull, JBool True])]"

definition step_message_info :: ReferenceInfo where
  "step_message_info =
     \<lparr>ref = JNum True ''5'', possibleTypes = [Event, Command, Query],
      field = ''steps[2].message''\<rparr>"

definition mixed_items_errors :: "ValidationError list" where
  "mixed_items_errors =
     [\<lparr>err_type = ''reference'', err_resource = ''flow/user-registration'',
       err_field = ''steps[2].message'',
       err_message = ''Referenced event/command/query '' @ dquote @ ''undefined'' @ dquote
                     @ '' does not exist'',
       err_file = ''flows/user-registration/index.mdx'', err_rule = ''refs/resource-exists''\<rparr>,
      \<lparr>err_type = ''reference'', err_resource = ''flow/user-registration'',
       err_field = ''owners'',
       err_message = ''Referenced user/team '' @ dquote @ ''null'' @ dquote
                     @ '' does not exist'',
       err_file = ''flows/user-registration/index.mdx'', err_rule = ''refs/owner-exists''\<rparr>,
      \<lparr>err_type = ''reference'', err_resource = ''flow/user-registration'',
       err_field = ''owners'',
       err_message = ''Referenced user/team '' @ dquote @ ''true'' @ dquote
                     @ '' does not exist'',
       err_file = ''flows/user-registration/index.mdx'', err_rule = ''refs/owner-exists''\<rparr>]"

section \<open>Auxiliary facts\<close>

subsection \<open>Evaluation\<close>

lemmas eval_defs = parsed_def buildResourceIndex_def index_file_def fm_get_def set_add_def
  versions_at_def index_lookup_def get_member_def object_prototype_def inherited_names_def
  resource_reference_def is_reference_def Let_def

lemmas semver_defs = semver_core_def satisfies_core_def parse_version_def parse_numeric_def
  parse_range_def parse_partial_def parse_xr_def is_digit_def digit_val_def

lemmas validate_defs = validateReferences_def extractReferences_def list_refs_def id_refs_def
  checkResourceExists_def lookup_versions_def semver_match_def reference_error_def dquote_def
  indexed_field_def digit_char_def array_includes_def

lemmas shape_defs = well_shaped_def items_def sound_step_def sound_property_def
  sound_reference_def canonical_id_def

lemma semver_core_examples:
  "valid semver_core ''1.2.0''" "satisfies semver_core ''1.2.0'' ''^1.0.0''"
  "valid semver_core ''2.0.0''" "\<not> satisfies semver_core ''2.0.0'' ''^1.0.0''"
  "valid semver_core ''0.0.1''" "satisfies semver_core ''0.0.1'' ''0.0.x''"
  "valid semver_core ''0.0.5''" "satisfies semver_core ''0.0.5'' ''0.0.x''"
  "valid semver_core ''0.2.1''" "\<not> satisfies semver_core ''0.2.1'' ''0.0.x''"
  "\<not> valid semver_core ''latest''" "\<not> valid semver_core ''banana''"
  by (simp_all add: semver_defs)

subsection \<open>The matcher on typed references\<close>

lemma is_reference_resource_reference: "is_reference (resource_reference i vo) i vo"
  by (simp add: is_reference_def resource_reference_def split: option.splits)

lemma satisfies_loop_iff:
  "satisfies_loop sv xs r = (\<exists>a\<in>set xs. js_satisfies sv a r)"
  by (induction xs) auto

lemma startsWith_loop_strings:
  "startsWith_loop (map JStr as) p = Inr (\<exists>a\<in>set as. startsWith a p)"
  by (induction as) (auto split: bool.splits)

lemma filter_strings:
  "filter (\<lambda>v. v \<noteq> JStr ''latest'' \<and> js_valid sv v) (map JStr vs)
     = map JStr (filter (\<lambda>a. a \<noteq> ''latest'' \<and> valid sv a) vs)"
  by (induction vs) auto

lemma filter_undefined:
  "filter (\<lambda>v. v \<noteq> JStr ''latest'' \<and> js_valid sv v) (replicate n JUndefined) = []"
  by (induction n) auto

lemma semver_match_string:
  "semver_match sv (map JStr vs) (JStr v) =
     Inr ((\<exists>a\<in>set vs. a \<noteq> ''latest'' \<and> valid sv a \<and> satisfies sv a v)
          \<or> (str_includes v ''.x''
              \<and> (\<exists>a\<in>set vs. a \<noteq> ''latest'' \<and> valid sv a \<and> startsWith a (strip_dot_x v))))"
  by (auto simp: semver_match_def Let_def filter_strings satisfies_loop_iff
      startsWith_loop_strings split: bool.splits)

lemma semver_match_inherited:
  "semver_match sv (replicate n JUndefined) v \<noteq> Inr True"
  by (cases v) (auto simp: semver_match_def Let_def filter_undefined split: bool.splits sum.splits)

lemma array_includes_strings:
  "array_includes (map JStr vs) (JStr v) = (v \<in> set vs)"
  by (auto simp: array_includes_def)

lemma lookup_versions_typed:
  "is_reference r i vo \<Longrightarrow> lookup_versions r t index = Inr (index_lookup index t i)"
  by (simp add: lookup_versions_def index_lookup_def is_reference_def split: option.splits)

lemma checkResourceExists_typed:
  assumes "is_reference r i vo"
  shows "checkResourceExists sv r t index =
     Inr (case index_lookup index t i of
            None \<Rightarrow> False
          | Some (SetOf vs) \<Rightarrow>
              vs \<noteq> []
              \<and> (case vo of
                    None \<Rightarrow> True
                  | Some v \<Rightarrow>
                      v = [] \<or> v = ''latest'' \<or> v \<in> set vs
                      \<or> (\<exists>a\<in>set vs. a \<noteq> ''latest'' \<and> valid sv a \<and> satisfies sv a v)
                      \<or> (str_includes v ''.x''
                          \<and> (\<exists>a\<in>set vs. a \<noteq> ''latest'' \<and> valid sv a
                                 \<and> startsWith a (strip_dot_x v))))
          | Some (Inherited n) \<Rightarrow>
              (case vo of None \<Rightarrow> True | Some v \<Rightarrow> v = [] \<or> (v = ''latest'' \<and> n > 0)))"
proof -
  from assms have v: "get_prop r ''version'' = Inr (case vo of None \<Rightarrow> JUndefined | Some v \<Rightarrow> JStr v)"
    by (simp add: is_reference_def)
  show ?thesis
  proof (cases "index_lookup index t i")
    case None
    then show ?thesis
      by (simp add: checkResourceExists_def lookup_versions_typed [OF assms])
  next
    case (Some m)
    show ?thesis
    proof (cases m)
      case (SetOf vs)
      with Some show ?thesis
        unfolding checkResourceExists_def lookup_versions_typed [OF assms] v
        by (auto simp: semver_match_string array_includes_strings Let_def array_includes_def
            split: option.splits)
    next
      case (Inherited n)
      have "semver_match sv (replicate n JUndefined) (JStr s) \<noteq> Inr True" for s
        by (rule semver_match_inherited)
      with Some Inherited show ?thesis
        unfolding checkResourceExists_def lookup_versions_typed [OF assms] v
        by (auto simp: Let_def array_includes_def split: option.splits sum.splits)
    qed
  qed
qed

lemma index_lookup_own:
  "versions_at index t i = Some vs \<Longrightarrow> index_lookup index t i = Some (SetOf vs)"
  by (auto simp: versions_at_def index_lookup_def get_member_def split: option.splits)

lemma inherited_member:
  "i \<in> set inherited_names \<longleftrightarrow> (\<exists>n. map_of object_prototype i = Some n)"
  unfolding inherited_names_def using map_of_eq_None_iff [of object_prototype i] by auto

lemma index_lookup_plain:
  "i \<notin> set inherited_names \<Longrightarrow> index_lookup index t i = map_option SetOf (versions_at index t i)"
  by (auto simp: versions_at_def index_lookup_def get_member_def inherited_names_def
      map_of_eq_None_iff split: option.splits)

subsection \<open>The index, entry by entry\<close>

lemma set_add_set: "set (set_add v vs) = insert v (set vs)"
  by (auto simp: set_add_def)

lemma set_add_distinct: "distinct vs \<Longrightarrow> distinct (set_add v vs)"
  by (simp add: set_add_def)

lemma set_add_nonempty: "set_add v vs \<noteq> []"
  by (auto simp: set_add_def)

lemma index_file_key:
  "(if (resourceType (catalogFile pf) = User \<or> resourceType (catalogFile pf) = Team
        \<or> resourceType (catalogFile pf) = Domain)
       \<and> truthy (fm_get (frontmatter pf) ''id'')
       \<and> typeof (fm_get (frontmatter pf) ''id'') = ''string''
    then the_string (fm_get (frontmatter pf) ''id'')
    else resourceId (catalogFile pf)) = canonical_id pf"
  by (cases "fm_get (frontmatter pf) ''id''") (auto simp: canonical_id_def)

lemma index_file_version:
  "(if truthy (fm_get (frontmatter pf) ''version'')
       \<and> typeof (fm_get (frontmatter pf) ''version'') = ''string''
    then the_string (fm_get (frontmatter pf) ''version'')
    else ''latest'') = declared_version pf"
  by (cases "fm_get (frontmatter pf) ''version''") (auto simp: declared_version_def)

lemma index_file_eq:
  "index_file index pf =
     (case get_member (case index (resourceType (catalogFile pf)) of
                         None \<Rightarrow> Map.empty | Some m \<Rightarrow> m) (canonical_id pf) of
        None \<Rightarrow>
          Inr (index(resourceType (catalogFile pf) \<mapsto>
                 (case index (resourceType (catalogFile pf)) of None \<Rightarrow> Map.empty | Some m \<Rightarrow> m)
                   (canonical_id pf \<mapsto> set_add (declared_version pf) [])))
      | Some (SetOf versions) \<Rightarrow>
          Inr (index(resourceType (catalogFile pf) \<mapsto>
                 (case index (resourceType (catalogFile pf)) of None \<Rightarrow> Map.empty | Some m \<Rightarrow> m)
                   (canonical_id pf \<mapsto> set_add (declared_version pf) versions)))
      | Some (Inherited n) \<Rightarrow> Inl TypeError)"
  unfolding index_file_def Let_def index_file_key index_file_version ..

lemma index_file_returns:
  assumes "index_file index pf = Inr index'"
  shows "versions_at index' t j =
       (if t = resourceType (catalogFile pf) \<and> j = canonical_id pf
        then Some (set_add (declared_version pf)
                     (case versions_at index t j of None \<Rightarrow> [] | Some vs \<Rightarrow> vs))
        else versions_at index t j)"
proof -
  let ?rt = "resourceType (catalogFile pf)"
  let ?byId = "case index ?rt of None \<Rightarrow> Map.empty | Some m \<Rightarrow> m"
  from assms obtain vs where
    i: "index' = index(?rt \<mapsto> ?byId(canonical_id pf \<mapsto> set_add (declared_version pf) vs))"
    and v: "vs = (case ?byId (canonical_id pf) of None \<Rightarrow> [] | Some old \<Rightarrow> old)"
    unfolding index_file_eq
    by (auto simp: get_member_def split: option.splits member.splits)
  show ?thesis
    unfolding i v by (simp add: versions_at_def split: option.splits)
qed

lemma index_file_plain:
  "canonical_id pf \<notin> set inherited_names \<Longrightarrow> \<exists>index'. index_file index pf = Inr index'"
  unfolding index_file_eq
  by (auto simp: get_member_def inherited_member
      split: option.splits member.splits)

lemma index_file_inherited:
  "canonical_id pf \<in> set inherited_names \<Longrightarrow>
   versions_at index (resourceType (catalogFile pf)) (canonical_id pf) = None \<Longrightarrow>
     index_file index pf = Inl TypeError"
  unfolding index_file_eq
  by (auto simp: versions_at_def get_member_def inherited_member
      split: option.splits member.splits)


lemma index_files_snoc:
  "index_files index (fs @ [pf]) =
     (case index_files index fs of Inl e \<Rightarrow> Inl e | Inr ix \<Rightarrow> index_file ix pf)"
  by (induction fs arbitrary: index) (auto split: sum.splits)

lemma buildResourceIndex_snoc:
  "buildResourceIndex (fs @ [pf]) =
     (case buildResourceIndex fs of Inl e \<Rightarrow> Inl e | Inr ix \<Rightarrow> index_file ix pf)"
  by (simp add: buildResourceIndex_def index_files_snoc)

lemma buildResourceIndex_Nil: "buildResourceIndex [] = Inr Map.empty"
  by (simp add: buildResourceIndex_def)

lemma versions_at_build_None:
  "buildResourceIndex fs = Inr index \<Longrightarrow>
     versions_at index t j = None \<longleftrightarrow>
       (\<forall>pf\<in>set fs. \<not> (resourceType (catalogFile pf) = t \<and> canonical_id pf = j))"
proof (induction fs arbitrary: index rule: rev_induct)
  case Nil
  then show ?case by (auto simp: buildResourceIndex_Nil versions_at_def)
next
  case (snoc pf fs)
  from snoc.prems obtain ix where ix: "buildResourceIndex fs = Inr ix"
    and f: "index_file ix pf = Inr index"
    by (auto simp: buildResourceIndex_snoc split: sum.splits)
  from snoc.IH [OF ix] index_file_returns [OF f, of t j] show ?case
    by auto
qed

lemma versions_at_build_Some:
  "buildResourceIndex fs = Inr index \<Longrightarrow> versions_at index t j = Some vs \<Longrightarrow>
     vs \<noteq> [] \<and> distinct vs
     \<and> set vs = {declared_version pf | pf. pf \<in> set fs \<and> resourceType (catalogFile pf) = t
                                          \<and> canonical_id pf = j}"
proof (induction fs arbitrary: index vs rule: rev_induct)
  case Nil
  then show ?case by (auto simp: buildResourceIndex_Nil versions_at_def)
next
  case (snoc pf fs)
  from snoc.prems obtain ix where ix: "buildResourceIndex fs = Inr ix"
    and f: "index_file ix pf = Inr index"
    by (auto simp: buildResourceIndex_snoc split: sum.splits)
  note step = index_file_returns [OF f, of t j]
  show ?case
  proof (cases "t = resourceType (catalogFile pf) \<and> j = canonical_id pf")
    case False
    with step snoc.prems have "versions_at ix t j = Some vs" by simp
    from snoc.IH [OF ix this] False show ?thesis by auto
  next
    case True
    show ?thesis
    proof (cases "versions_at ix t j")
      case None
      then have "\<forall>q\<in>set fs. \<not> (resourceType (catalogFile q) = t \<and> canonical_id q = j)"
        by (simp add: versions_at_build_None [OF ix])
      with snoc.prems step True None show ?thesis
        by (auto simp: set_add_def)
    next
      case (Some old)
      from snoc.IH [OF ix Some] snoc.prems step True Some show ?thesis
        by (auto simp: set_add_set set_add_distinct set_add_nonempty)
    qed
  qed
qed

lemma buildResourceIndex_returns_keys:
  "buildResourceIndex fs = Inr index \<Longrightarrow> \<forall>pf\<in>set fs. canonical_id pf \<notin> set inherited_names"
proof (induction fs arbitrary: index rule: rev_induct)
  case Nil
  show ?case by simp
next
  case (snoc pf fs)
  from snoc.prems obtain ix where ix: "buildResourceIndex fs = Inr ix"
    and f: "index_file ix pf = Inr index"
    by (auto simp: buildResourceIndex_snoc split: sum.splits)
  from snoc.IH [OF ix] have old: "\<forall>q\<in>set fs. canonical_id q \<notin> set inherited_names" .
  have "canonical_id pf \<notin> set inherited_names"
  proof
    assume i: "canonical_id pf \<in> set inherited_names"
    with old have "\<forall>q\<in>set fs. \<not> (resourceType (catalogFile q) = resourceType (catalogFile pf)
                     \<and> canonical_id q = canonical_id pf)" by auto
    then have "versions_at ix (resourceType (catalogFile pf)) (canonical_id pf) = None"
      by (simp add: versions_at_build_None [OF ix])
    from index_file_inherited [OF i this] f show False by simp
  qed
  with old show ?case by simp
qed

lemma buildResourceIndex_plain:
  "\<forall>pf\<in>set fs. canonical_id pf \<notin> set inherited_names \<Longrightarrow>
     \<exists>index. buildResourceIndex fs = Inr index"
proof (induction fs rule: rev_induct)
  case Nil
  show ?case by (simp add: buildResourceIndex_Nil)
next
  case (snoc pf fs)
  then obtain ix where ix: "buildResourceIndex fs = Inr ix" by auto
  from snoc.prems have "canonical_id pf \<notin> set inherited_names" by simp
  from index_file_plain [OF this, of ix] ix show ?case
    by (auto simp: buildResourceIndex_snoc)
qed

lemma canonical_id_string:
  "resourceType (catalogFile pf) \<in> {User, Team, Domain} \<Longrightarrow>
   fm_get (frontmatter pf) ''id'' = JStr s \<Longrightarrow> s \<noteq> [] \<Longrightarrow> canonical_id pf = s"
  by (simp add: canonical_id_def)

lemma canonical_id_other:
  "resourceType (catalogFile pf) \<notin> {User, Team, Domain} \<Longrightarrow>
   canonical_id pf = resourceId (catalogFile pf)"
  by (simp add: canonical_id_def split: jsval.splits)

subsection \<open>Conversion to string\<close>

lemma collect_returns:
  "(\<exists>ys. collect xs = Inr ys) \<longleftrightarrow> list_all (\<lambda>x. \<exists>a. x = Inr a) xs"
  by (induction xs) (auto split: sum.splits)

lemma js_to_string_printable: "(\<exists>s. js_to_string v = Inr s) \<longleftrightarrow> printable v"
proof (induction v rule: js_to_string.induct)
  case (6 xs)
  have "(\<exists>s. js_to_string (JArr xs) = Inr s)
          \<longleftrightarrow> (\<exists>ys. collect (map (\<lambda>x. if nullish x then Inr [] else js_to_string x) xs) = Inr ys)"
    by (auto split: sum.splits)
  also have "\<dots> \<longleftrightarrow> list_all (\<lambda>x. nullish x \<or> (\<exists>s. js_to_string x = Inr s)) xs"
    by (auto simp: collect_returns list_all_iff)
  also have "\<dots> \<longleftrightarrow> list_all printable xs"
  proof -
    have "nullish x \<or> (\<exists>s. js_to_string x = Inr s) \<longleftrightarrow> printable x" if "x \<in> set xs" for x
    proof (cases "nullish x")
      case True
      then show ?thesis by (cases x) simp_all
    next
      case False
      with 6 [OF that] show ?thesis by simp
    qed
    then show ?thesis by (auto simp: list_all_iff)
  qed
  finally show ?case by simp
qed simp_all

lemma js_to_string_error: "\<not> printable v \<Longrightarrow> js_to_string v = Inl TypeError"
proof -
  assume "\<not> printable v"
  then have "\<not> (\<exists>s. js_to_string v = Inr s)" by (simp add: js_to_string_printable)
  then show ?thesis by (cases "js_to_string v") (auto intro: js_error.exhaust)
qed

lemma printable_string: "printable v \<Longrightarrow> \<exists>s. js_to_string v = Inr s"
  by (simp add: js_to_string_printable)

subsection \<open>Sound references\<close>

lemma get_prop_total: "\<not> nullish r \<Longrightarrow> \<exists>v. get_prop r k = Inr v"
  by (cases r) simp_all

lemma get_prop_nullish: "nullish r \<Longrightarrow> get_prop r k = Inl TypeError"
  by (cases r) simp_all

lemma sound_reference_iff:
  "sound_reference r \<longleftrightarrow>
     (\<exists>i v. get_prop r ''id'' = Inr i \<and> get_prop r ''version'' = Inr v \<and> printable i
            \<and> (truthy v \<longrightarrow> printable v))"
  by (auto simp: sound_reference_def split: sum.splits)

lemma checkResourceExists_total:
  assumes "sound_reference r"
  shows "\<exists>b. checkResourceExists sv r t index = Inr b"
proof -
  from assms obtain i v where i: "get_prop r ''id'' = Inr i"
    and v: "get_prop r ''version'' = Inr v" and p: "printable i"
    by (auto simp: sound_reference_iff)
  from printable_string [OF p] obtain key where key: "js_to_string i = Inr key" by blast
  show ?thesis
    by (auto simp: checkResourceExists_def lookup_versions_def i v key Let_def
        split: option.splits sum.splits)
qed

lemma satisfies_loop_not_string:
  "(\<forall>s. v \<noteq> JStr s) \<Longrightarrow> \<not> satisfies_loop sv xs v"
  by (induction xs) (auto elim: js_satisfies.elims)

lemma semver_match_not_string:
  "(\<forall>s. v \<noteq> JStr s) \<Longrightarrow> semver_match sv xs v \<noteq> Inr True"
  by (cases v) (auto simp: semver_match_def Let_def satisfies_loop_not_string
      split: bool.splits sum.splits)

lemma array_from_includes:
  "array_includes (array_from m) v \<Longrightarrow> v = JUndefined \<or> (\<exists>s. v = JStr s)"
  by (cases m) (auto simp: array_includes_def)

lemma not_printable_cases: "\<not> printable v \<Longrightarrow> truthy v \<and> v \<noteq> JUndefined \<and> (\<forall>s. v \<noteq> JStr s)"
  by (cases v) auto

lemma checkResourceExists_unsound:
  assumes "\<not> sound_reference r"
  shows "checkResourceExists sv r t index \<noteq> Inr True"
proof (cases "nullish r")
  case True
  then show ?thesis
    by (auto simp: checkResourceExists_def lookup_versions_def get_prop_nullish
        split: option.splits)
next
  case False
  then obtain i v where i: "get_prop r ''id'' = Inr i" and v: "get_prop r ''version'' = Inr v"
    using get_prop_total by blast
  show ?thesis
  proof (cases "printable i")
    case False
    then show ?thesis
      by (auto simp: checkResourceExists_def lookup_versions_def i js_to_string_error
          split: option.splits)
  next
    case True
    with assms i v have tv: "truthy v" and np: "\<not> printable v"
      by (auto simp: sound_reference_iff)
    from not_printable_cases [OF np] have ns: "\<forall>s. v \<noteq> JStr s" and nu: "v \<noteq> JUndefined"
      by simp_all
    have inc: "\<not> array_includes (array_from m) v" for m
      using array_from_includes [of m v] ns nu by auto
    have sm: "semver_match sv (array_from m) v \<noteq> Inr True" for m
      using semver_match_not_string [OF ns] .
    show ?thesis
      using tv ns inc sm
      by (auto simp: checkResourceExists_def v Let_def split: option.splits sum.splits)
  qed
qed

lemma reference_error_total:
  assumes "sound_reference (ref info)"
  shows "\<exists>e. reference_error pf info = Inr e"
proof -
  from assms obtain i v where i: "get_prop (ref info) ''id'' = Inr i"
    and v: "get_prop (ref info) ''version'' = Inr v" and p: "printable i"
    and pv: "truthy v \<longrightarrow> printable v"
    by (auto simp: sound_reference_iff)
  from printable_string [OF p] obtain key where key: "js_to_string i = Inr key" by blast
  show ?thesis
  proof (cases "truthy v")
    case True
    with pv printable_string obtain s where "js_to_string v = Inr s" by blast
    with True show ?thesis by (simp add: reference_error_def i v key Let_def)
  next
    case False
    then show ?thesis by (simp add: reference_error_def i v key Let_def)
  qed
qed

lemma reference_error_unsound:
  assumes "\<not> sound_reference (ref info)"
  shows "reference_error pf info = Inl TypeError"
proof (cases "nullish (ref info)")
  case True
  then show ?thesis by (simp add: reference_error_def get_prop_nullish)
next
  case False
  then obtain i v where i: "get_prop (ref info) ''id'' = Inr i"
    and v: "get_prop (ref info) ''version'' = Inr v"
    using get_prop_total by blast
  have e: "x = TypeError" for x
    by (cases x) simp
  show ?thesis
  proof (cases "truthy v \<and> \<not> printable v")
    case True
    then show ?thesis by (simp add: reference_error_def i v js_to_string_error)
  next
    case False
    with assms i v have "\<not> printable i" by (auto simp: sound_reference_iff)
    then show ?thesis
      by (auto simp: reference_error_def i v js_to_string_error e split: sum.splits)
  qed
qed

lemma some_type_total:
  assumes "sound_reference r"
  shows "some_type sv r index ts =
           Inr (\<exists>t\<in>set ts. checkResourceExists sv r t index = Inr True)"
proof (induction ts)
  case Nil
  show ?case by simp
next
  case (Cons t ts)
  obtain b where "checkResourceExists sv r t index = Inr b"
    using checkResourceExists_total [OF assms] by blast
  with Cons show ?case by (cases b) auto
qed

lemma some_type_unsound: "\<not> sound_reference r \<Longrightarrow> some_type sv r index ts \<noteq> Inr True"
proof (induction ts)
  case Nil
  show ?case by simp
next
  case (Cons t ts)
  then show ?case
    using checkResourceExists_unsound [of r sv t index]
    by (auto split: sum.splits bool.splits)
qed

lemma check_references_total:
  assumes "\<forall>info\<in>set rs. sound_reference (ref info)"
  shows "check_references sv index pf rs acc =
           Inr (acc @ map (\<lambda>info. projr (reference_error pf info))
                        (filter (\<lambda>info. \<not> resolves sv index info) rs))"
  using assms
proof (induction rs arbitrary: acc)
  case Nil
  show ?case by simp
next
  case (Cons info rs)
  then have nn: "sound_reference (ref info)" by simp
  obtain e where e: "reference_error pf info = Inr e"
    using reference_error_total [OF nn] by blast
  from Cons show ?case
    by (simp add: some_type_total [OF nn] resolves_def e)
qed

lemma check_references_returns:
  "check_references sv index pf rs acc = Inr errors \<Longrightarrow>
     \<forall>info\<in>set rs. sound_reference (ref info)"
proof (induction rs arbitrary: acc)
  case Nil
  show ?case by simp
next
  case (Cons info rs)
  have "sound_reference (ref info)"
  proof (rule ccontr)
    assume n: "\<not> sound_reference (ref info)"
    from some_type_unsound [OF n, of sv index "possibleTypes info"]
      reference_error_unsound [OF n, of pf] Cons.prems
    show False by (auto split: sum.splits bool.splits)
  qed
  moreover from Cons have "\<forall>i\<in>set rs. sound_reference (ref i)"
    by (auto split: sum.splits bool.splits)
  ultimately show ?case by simp
qed

subsection \<open>The extractor\<close>

lemma field_root_plain: "CHR ''['' \<notin> set k \<Longrightarrow> field_root k = k"
  by (auto simp: field_root_def takeWhile_eq_all_conv)

lemma field_root_indexed: "CHR ''['' \<notin> set k \<Longrightarrow> field_root (indexed_field k j sub) = k"
proof -
  assume "CHR ''['' \<notin> set k"
  then have "\<And>x. x \<in> set k \<Longrightarrow> x \<noteq> CHR ''[''" by auto
  then have "takeWhile (\<lambda>c. c \<noteq> CHR ''['') (k @ ''['' @ nat_to_string j @ ''].'' @ sub)
               = k @ takeWhile (\<lambda>c. c \<noteq> CHR ''['') (''['' @ nat_to_string j @ ''].'' @ sub)"
    by (rule takeWhile_append2)
  then show ?thesis by (simp add: field_root_def indexed_field_def)
qed

lemma list_refs_field:
  "info \<in> set (list_refs fm k ts) \<Longrightarrow> field info = k \<and> isArray (fm_get fm k)"
  by (auto simp: list_refs_def split: if_splits)

lemma id_refs_field:
  "info \<in> set (id_refs fm k ts) \<Longrightarrow> field info = k \<and> isArray (fm_get fm k)"
  by (auto simp: id_refs_def split: if_splits)

lemma list_refs_root:
  "info \<in> set (list_refs fm k ts) \<Longrightarrow> CHR ''['' \<notin> set k \<Longrightarrow>
     isArray (fm_get fm (field_root (field info)))"
  using list_refs_field [of info fm k ts] by (simp add: field_root_plain)

lemma id_refs_root:
  "info \<in> set (id_refs fm k ts) \<Longrightarrow> CHR ''['' \<notin> set k \<Longrightarrow>
     isArray (fm_get fm (field_root (field info)))"
  using id_refs_field [of info fm k ts] by (simp add: field_root_plain)

lemma step_refs_field:
  "step_refs i xs = Inr rs \<Longrightarrow> info \<in> set rs \<Longrightarrow>
     \<exists>j sub. field info = indexed_field ''steps'' j sub"
proof (induction xs arbitrary: i rs)
  case Nil
  then show ?case by simp
next
  case (Cons x xs)
  then show ?case
    by (fastforce split: sum.splits if_splits)
qed

lemma property_refs_field:
  "property_refs i xs = Inr rs \<Longrightarrow> info \<in> set rs \<Longrightarrow>
     \<exists>j sub. field info = indexed_field ''properties'' j sub"
proof (induction xs arbitrary: i rs)
  case Nil
  then show ?case by simp
next
  case (Cons x xs)
  then show ?case
    by (fastforce split: sum.splits if_splits)
qed

lemma array_truthy: "isArray v \<Longrightarrow> truthy v"
  by (cases v) simp_all

lemma elements_not_array: "\<not> isArray v \<Longrightarrow> elements v = []"
  by (cases v) simp_all

lemma elements_falsy: "\<not> truthy v \<Longrightarrow> elements v = []"
  by (cases v) simp_all

lemma list_refs_refs: "map ref (list_refs fm k ts) = elements (fm_get fm k)"
  by (auto simp: list_refs_def comp_def elements_not_array elements_falsy)

lemma id_refs_refs:
  "map ref (id_refs fm k ts) = map (\<lambda>x. JObj [(''id'', x)]) (elements (fm_get fm k))"
  by (auto simp: id_refs_def comp_def elements_not_array elements_falsy)

lemma sound_wrapped: "sound_reference (JObj [(''id'', x)]) = printable x"
  by (simp add: sound_reference_def)

lemma step_refs_raises:
  "(\<exists>e. step_refs i xs = Inl e) \<longleftrightarrow> \<not> list_all (\<lambda>x. \<not> nullish x) xs"
proof (induction xs arbitrary: i)
  case Nil
  show ?case by simp
next
  case (Cons x xs)
  show ?case
  proof (cases "nullish x")
    case True
    then show ?thesis by (simp add: get_prop_nullish)
  next
    case False
    then obtain m s where "get_prop x ''message'' = Inr m" "get_prop x ''service'' = Inr s"
      using get_prop_total by blast
    with False Cons [of "Suc i"] show ?thesis by (auto split: sum.splits)
  qed
qed

lemma property_refs_raises:
  "(\<exists>e. property_refs i xs = Inl e) \<longleftrightarrow> \<not> list_all (\<lambda>x. \<not> nullish x) xs"
proof (induction xs arbitrary: i)
  case Nil
  show ?case by simp
next
  case (Cons x xs)
  show ?case
  proof (cases "nullish x")
    case True
    then show ?thesis by (simp add: get_prop_nullish)
  next
    case False
    then obtain r where "get_prop x ''references'' = Inr r"
      using get_prop_total by blast
    with False Cons [of "Suc i"] show ?thesis by (auto split: sum.splits)
  qed
qed

lemma step_refs_sound:
  "(\<exists>rs. step_refs i xs = Inr rs \<and> (\<forall>info\<in>set rs. sound_reference (ref info)))
     \<longleftrightarrow> list_all sound_step xs"
proof (induction xs arbitrary: i)
  case Nil
  show ?case by simp
next
  case (Cons x xs)
  show ?case
  proof (cases "nullish x")
    case True
    then show ?thesis by (simp add: get_prop_nullish sound_step_def)
  next
    case False
    then obtain m s where ms: "get_prop x ''message'' = Inr m" "get_prop x ''service'' = Inr s"
      using get_prop_total by blast
    show ?thesis
    proof (cases "step_refs (Suc i) xs")
      case (Inl e)
      with Cons [of "Suc i"] have "\<not> list_all sound_step xs" by auto
      with Inl ms show ?thesis by simp
    next
      case (Inr others)
      with Cons [of "Suc i"] have "(\<forall>info\<in>set others. sound_reference (ref info))
                                    \<longleftrightarrow> list_all sound_step xs" by auto
      moreover have "sound_step x \<longleftrightarrow> (\<not> truthy m \<or> sound_reference m)
                                        \<and> (\<not> truthy s \<or> sound_reference s)"
        by (simp add: sound_step_def ms)
      ultimately show ?thesis using Inr ms by auto
    qed
  qed
qed

lemma property_refs_sound:
  "(\<exists>rs. property_refs i xs = Inr rs \<and> (\<forall>info\<in>set rs. sound_reference (ref info)))
     \<longleftrightarrow> list_all sound_property xs"
proof (induction xs arbitrary: i)
  case Nil
  show ?case by simp
next
  case (Cons x xs)
  show ?case
  proof (cases "nullish x")
    case True
    then show ?thesis by (simp add: get_prop_nullish sound_property_def)
  next
    case False
    then obtain r where r: "get_prop x ''references'' = Inr r"
      using get_prop_total by blast
    have p: "\<not> truthy r \<Longrightarrow> printable r" by (cases r) simp_all
    show ?thesis
    proof (cases "property_refs (Suc i) xs")
      case (Inl e)
      with Cons [of "Suc i"] have "\<not> list_all sound_property xs" by auto
      with Inl r show ?thesis by simp
    next
      case (Inr others)
      with Cons [of "Suc i"] have "(\<forall>info\<in>set others. sound_reference (ref info))
                                    \<longleftrightarrow> list_all sound_property xs" by auto
      moreover have "sound_property x \<longleftrightarrow> printable r"
        by (simp add: sound_property_def r)
      ultimately show ?thesis using Inr r p
        by (cases "truthy r") (auto simp: sound_wrapped)
    qed
  qed
qed

lemma list_refs_sound:
  "(\<forall>info\<in>set (list_refs fm k ts). sound_reference (ref info))
     \<longleftrightarrow> list_all sound_reference (elements (fm_get fm k))"
proof -
  have "(\<forall>info\<in>set (list_refs fm k ts). sound_reference (ref info))
          \<longleftrightarrow> list_all sound_reference (map ref (list_refs fm k ts))"
    by (simp add: list_all_iff)
  then show ?thesis by (simp only: list_refs_refs)
qed

lemma id_refs_sound:
  "(\<forall>info\<in>set (id_refs fm k ts). sound_reference (ref info))
     \<longleftrightarrow> list_all printable (elements (fm_get fm k))"
proof -
  have "(\<forall>info\<in>set (id_refs fm k ts). sound_reference (ref info))
          \<longleftrightarrow> list_all sound_reference (map ref (id_refs fm k ts))"
    by (simp add: list_all_iff)
  then show ?thesis by (simp add: id_refs_refs list_all_iff sound_wrapped)
qed

lemma extractReferences_parts:
  "extractReferences pf =
     (case flow_part pf of
        Inl e \<Rightarrow> Inl e
      | Inr fl \<Rightarrow>
          (case entity_part pf of
             Inl e \<Rightarrow> Inl e
           | Inr en \<Rightarrow> Inr (plain_part pf @ fl @ en @ id_part pf)))"
proof -
  have f: "(if resourceType (catalogFile pf) = Flow \<and> truthy (fm_get (frontmatter pf) ''steps'')
               \<and> isArray (fm_get (frontmatter pf) ''steps'')
            then step_refs 0 (elements (fm_get (frontmatter pf) ''steps'')) else Inr [])
           = flow_part pf"
    by (cases "isArray (fm_get (frontmatter pf) ''steps'')")
       (simp_all add: flow_part_def items_def elements_not_array array_truthy)
  have e: "(if resourceType (catalogFile pf) = Entity
               \<and> truthy (fm_get (frontmatter pf) ''properties'')
               \<and> isArray (fm_get (frontmatter pf) ''properties'')
            then property_refs 0 (elements (fm_get (frontmatter pf) ''properties'')) else Inr [])
           = entity_part pf"
    by (cases "isArray (fm_get (frontmatter pf) ''properties'')")
       (simp_all add: entity_part_def items_def elements_not_array array_truthy)
  show ?thesis
    unfolding extractReferences_def Let_def f e plain_part_def id_part_def
    by (simp cong: sum.case_cong if_cong)
qed

lemma extractReferences_raises:
  "(\<exists>e. extractReferences pf = Inl e) \<longleftrightarrow>
     (resourceType (catalogFile pf) = Flow
        \<and> \<not> no_nullish_items (fm_get (frontmatter pf) ''steps''))
     \<or> (resourceType (catalogFile pf) = Entity
          \<and> \<not> no_nullish_items (fm_get (frontmatter pf) ''properties''))"
proof -
  have f: "(\<exists>e. flow_part pf = Inl e) \<longleftrightarrow>
             resourceType (catalogFile pf) = Flow
             \<and> \<not> no_nullish_items (fm_get (frontmatter pf) ''steps'')"
    using step_refs_raises [of 0 "items pf ''steps''"]
    by (auto simp: flow_part_def no_nullish_items_def items_def)
  have e: "(\<exists>e. entity_part pf = Inl e) \<longleftrightarrow>
             resourceType (catalogFile pf) = Entity
             \<and> \<not> no_nullish_items (fm_get (frontmatter pf) ''properties'')"
    using property_refs_raises [of 0 "items pf ''properties''"]
    by (auto simp: entity_part_def no_nullish_items_def items_def)
  have "(\<exists>x. extractReferences pf = Inl x) \<longleftrightarrow>
          (\<exists>x. flow_part pf = Inl x) \<or> (\<exists>x. entity_part pf = Inl x)"
    unfolding extractReferences_parts by (auto split: sum.splits)
  with f e show ?thesis by (auto simp del: not_ex)
qed

lemma well_shaped_iff:
  "well_shaped pf \<longleftrightarrow>
     (\<exists>rs. extractReferences pf = Inr rs \<and> (\<forall>info\<in>set rs. sound_reference (ref info)))"
proof -
  let ?rt = "resourceType (catalogFile pf)"
  have f: "(\<exists>fl. flow_part pf = Inr fl \<and> (\<forall>info\<in>set fl. sound_reference (ref info)))
             \<longleftrightarrow> (?rt \<noteq> Flow \<or> list_all sound_step (items pf ''steps''))"
    using step_refs_sound [of 0 "items pf ''steps''"] by (auto simp: flow_part_def)
  have e: "(\<exists>en. entity_part pf = Inr en \<and> (\<forall>info\<in>set en. sound_reference (ref info)))
             \<longleftrightarrow> (?rt \<noteq> Entity \<or> list_all sound_property (items pf ''properties''))"
    using property_refs_sound [of 0 "items pf ''properties''"] by (auto simp: entity_part_def)
  have p: "(\<forall>info\<in>set (plain_part pf). sound_reference (ref info))
             \<longleftrightarrow> (?rt \<noteq> Domain
                    \<or> list_all sound_reference (items pf ''services'' @ items pf ''domains''
                                                 @ items pf ''entities''))
                 \<and> (?rt \<noteq> Service
                      \<or> list_all sound_reference (items pf ''sends'' @ items pf ''receives''
                                                   @ items pf ''entities''))"
    unfolding plain_part_def items_def
    using list_refs_sound [of "frontmatter pf"]
    by (auto simp: ball_Un)
  have i: "(\<forall>info\<in>set (id_part pf). sound_reference (ref info))
             \<longleftrightarrow> list_all printable (items pf ''owners'')
                 \<and> (?rt \<noteq> Team \<or> list_all printable (items pf ''members''))"
    unfolding id_part_def items_def
    using id_refs_sound [of "frontmatter pf"]
    by (auto simp: ball_Un)
  have "(\<exists>rs. extractReferences pf = Inr rs \<and> (\<forall>info\<in>set rs. sound_reference (ref info)))
          \<longleftrightarrow> (\<exists>fl. flow_part pf = Inr fl \<and> (\<forall>info\<in>set fl. sound_reference (ref info)))
              \<and> (\<exists>en. entity_part pf = Inr en \<and> (\<forall>info\<in>set en. sound_reference (ref info)))
              \<and> (\<forall>info\<in>set (plain_part pf). sound_reference (ref info))
              \<and> (\<forall>info\<in>set (id_part pf). sound_reference (ref info))"
    unfolding extractReferences_parts by (auto split: sum.splits)
  then show ?thesis
    unfolding f e p i by (auto simp: well_shaped_def Let_def)
qed

lemma extractReferences_field:
  assumes "extractReferences pf = Inr rs" and "info \<in> set rs"
  shows "isArray (fm_get (frontmatter pf) (field_root (field info)))"
proof -
  let ?fm = "frontmatter pf"
  from assms(1) obtain fl en where fl: "flow_part pf = Inr fl" and en: "entity_part pf = Inr en"
    and rs: "rs = plain_part pf @ fl @ en @ id_part pf"
    unfolding extractReferences_parts by (auto split: sum.splits)
  with assms(2) consider "info \<in> set (plain_part pf)" | "info \<in> set fl" | "info \<in> set en"
    | "info \<in> set (id_part pf)"
    by auto
  then show ?thesis
  proof cases
    case 1
    have "info \<in> set (list_refs ?fm k ts) \<Longrightarrow> CHR ''['' \<notin> set k \<Longrightarrow> ?thesis" for k ts
      by (rule list_refs_root)
    with 1 show ?thesis
      unfolding plain_part_def by (auto split: if_splits)
  next
    case 2
    have "info \<in> set [] \<Longrightarrow> False" by simp
    with 2 fl have s: "step_refs 0 (items pf ''steps'') = Inr fl"
      unfolding flow_part_def by (auto split: if_splits)
    with 2 have "items pf ''steps'' \<noteq> []" by auto
    then have a: "isArray (fm_get ?fm ''steps'')"
      unfolding items_def using elements_not_array by blast
    from step_refs_field [OF s 2] a show ?thesis by (auto simp: field_root_indexed)
  next
    case 3
    with en have s: "property_refs 0 (items pf ''properties'') = Inr en"
      unfolding entity_part_def by (auto split: if_splits)
    with 3 have "items pf ''properties'' \<noteq> []" by auto
    then have a: "isArray (fm_get ?fm ''properties'')"
      unfolding items_def using elements_not_array by blast
    from property_refs_field [OF s 3] a show ?thesis by (auto simp: field_root_indexed)
  next
    case 4
    have "info \<in> set (id_refs ?fm k ts) \<Longrightarrow> CHR ''['' \<notin> set k \<Longrightarrow> ?thesis" for k ts
      by (rule id_refs_root)
    with 4 show ?thesis
      unfolding id_part_def by (auto split: if_splits)
  qed
qed

subsection \<open>When the validator returns\<close>

lemma validate_files_total:
  assumes "\<forall>pf\<in>set fs. well_shaped pf"
  shows "validate_files sv index fs acc =
           Inr (acc @ concat (map (unresolved_errors sv index) fs))"
  using assms
proof (induction fs arbitrary: acc)
  case Nil
  show ?case by simp
next
  case (Cons pf fs)
  then have "well_shaped pf" by simp
  then obtain rs where rs: "extractReferences pf = Inr rs"
    "\<forall>info\<in>set rs. sound_reference (ref info)"
    by (auto simp: well_shaped_iff)
  from Cons show ?case
    by (simp add: rs check_references_total [OF rs(2)] unresolved_errors_def references_of_def)
qed

lemma validate_files_returns:
  "validate_files sv index fs acc = Inr errors \<Longrightarrow>
     errors = acc @ concat (map (unresolved_errors sv index) fs)
     \<and> (\<forall>pf\<in>set fs. well_shaped pf)"
proof (induction fs arbitrary: acc)
  case Nil
  then show ?case by simp
next
  case (Cons pf fs)
  from Cons.prems obtain rs where rs: "extractReferences pf = Inr rs"
    by (auto split: sum.splits)
  with Cons.prems obtain errors' where
    c: "check_references sv index pf rs acc = Inr errors'"
    and v: "validate_files sv index fs errors' = Inr errors"
    by (auto split: sum.splits)
  from check_references_returns [OF c] have nn: "\<forall>info\<in>set rs. sound_reference (ref info)" .
  from check_references_total [OF nn, of sv index pf acc] c
  have e: "errors' = acc @ unresolved_errors sv index pf"
    by (simp add: unresolved_errors_def references_of_def rs)
  from nn rs have "well_shaped pf" by (auto simp: well_shaped_iff)
  with Cons.IH [OF v] e show ?case by simp
qed

lemma validateReferences_returns_iff:
  "(\<exists>errors. validateReferences sv fs = Inr errors) \<longleftrightarrow>
     (\<forall>pf\<in>set fs. canonical_id pf \<notin> set inherited_names \<and> well_shaped pf)"
proof
  assume "\<exists>errors. validateReferences sv fs = Inr errors"
  then obtain errors index where b: "buildResourceIndex fs = Inr index"
    and v: "validate_files sv index fs [] = Inr errors"
    by (auto simp: validateReferences_def split: sum.splits)
  from buildResourceIndex_returns_keys [OF b] validate_files_returns [OF v]
  show "\<forall>pf\<in>set fs. canonical_id pf \<notin> set inherited_names \<and> well_shaped pf" by simp
next
  assume a: "\<forall>pf\<in>set fs. canonical_id pf \<notin> set inherited_names \<and> well_shaped pf"
  then obtain index where b: "buildResourceIndex fs = Inr index"
    using buildResourceIndex_plain [of fs] by auto
  from a have "\<forall>pf\<in>set fs. well_shaped pf" by simp
  from validate_files_total [OF this, of sv index "[]"] b
  show "\<exists>errors. validateReferences sv fs = Inr errors"
    by (simp add: validateReferences_def)
qed

subsection \<open>The fields of an error\<close>

lemma type_label:
  "(if length ts = 1 then type_name (ts ! 0) else join ''/'' (map type_name ts))
     = (case ts of [t] \<Rightarrow> type_name t | _ \<Rightarrow> join ''/'' (map type_name ts))"
  by (cases ts; simp split: list.splits)

lemma reference_error_eq:
  assumes "get_prop (ref info) ''id'' = Inr i" and "get_prop (ref info) ''version'' = Inr v"
    and "js_to_string i = Inr idStr" and "truthy v \<longrightarrow> js_to_string v = Inr vStr"
  shows "reference_error pf info =
     Inr \<lparr>err_type = ''reference'',
          err_resource = type_name (resourceType (catalogFile pf)) @ ''/''
                         @ resourceId (catalogFile pf),
          err_field = field info,
          err_message =
            ''Referenced ''
            @ (case possibleTypes info of [t] \<Rightarrow> type_name t
               | _ \<Rightarrow> join ''/'' (map type_name (possibleTypes info)))
            @ '' '' @ dquote @ idStr @ dquote
            @ (if truthy v then '' (version: '' @ vStr @ '')'' else [])
            @ '' does not exist'',
          err_file = relativePath (catalogFile pf),
          err_rule = (if field info = ''owners'' then ''refs/owner-exists''
                      else if truthy v then ''refs/valid-version-range''
                      else ''refs/resource-exists'')\<rparr>"
  unfolding reference_error_def Let_def type_label
  using assms by (cases "truthy v") simp_all

lemma reference_error_fields:
  assumes "reference_error pf info = Inr e"
  shows "\<exists>i v idStr vStr.
           get_prop (ref info) ''id'' = Inr i \<and> get_prop (ref info) ''version'' = Inr v
           \<and> js_to_string i = Inr idStr \<and> (truthy v \<longrightarrow> js_to_string v = Inr vStr)
           \<and> err_message e =
                ''Referenced ''
                @ (case possibleTypes info of [t] \<Rightarrow> type_name t
                   | _ \<Rightarrow> join ''/'' (map type_name (possibleTypes info)))
                @ '' '' @ dquote @ idStr @ dquote
                @ (if truthy v then '' (version: '' @ vStr @ '')'' else [])
                @ '' does not exist''
           \<and> err_resource e = type_name (resourceType (catalogFile pf)) @ ''/''
                               @ resourceId (catalogFile pf)
           \<and> err_rule e = (if field info = ''owners'' then ''refs/owner-exists''
                           else if truthy v then ''refs/valid-version-range''
                           else ''refs/resource-exists'')
           \<and> err_field e = field info \<and> err_type e = ''reference''
           \<and> err_file e = relativePath (catalogFile pf)"
proof -
  from assms obtain v where v: "get_prop (ref info) ''version'' = Inr v"
    by (auto simp: reference_error_def split: sum.splits)
  from assms v obtain i where i: "get_prop (ref info) ''id'' = Inr i"
    by (auto simp: reference_error_def split: sum.splits if_splits)
  from assms v i obtain idStr where s: "js_to_string i = Inr idStr"
    by (auto simp: reference_error_def split: sum.splits if_splits)
  from assms v i s obtain vStr where vs: "truthy v \<longrightarrow> js_to_string v = Inr vStr"
    by (auto simp: reference_error_def split: sum.splits if_splits)
  from reference_error_eq [OF i v s vs, of pf] assms
  have "e = \<lparr>err_type = ''reference'',
          err_resource = type_name (resourceType (catalogFile pf)) @ ''/''
                         @ resourceId (catalogFile pf),
          err_field = field info,
          err_message =
            ''Referenced ''
            @ (case possibleTypes info of [t] \<Rightarrow> type_name t
               | _ \<Rightarrow> join ''/'' (map type_name (possibleTypes info)))
            @ '' '' @ dquote @ idStr @ dquote
            @ (if truthy v then '' (version: '' @ vStr @ '')'' else [])
            @ '' does not exist'',
          err_file = relativePath (catalogFile pf),
          err_rule = (if field info = ''owners'' then ''refs/owner-exists''
                      else if truthy v then ''refs/valid-version-range''
                      else ''refs/resource-exists'')\<rparr>"
    by simp
  then have "get_prop (ref info) ''id'' = Inr i \<and> get_prop (ref info) ''version'' = Inr v
           \<and> js_to_string i = Inr idStr \<and> (truthy v \<longrightarrow> js_to_string v = Inr vStr)
           \<and> err_message e =
                ''Referenced ''
                @ (case possibleTypes info of [t] \<Rightarrow> type_name t
                   | _ \<Rightarrow> join ''/'' (map type_name (possibleTypes info)))
                @ '' '' @ dquote @ idStr @ dquote
                @ (if truthy v then '' (version: '' @ vStr @ '')'' else [])
                @ '' does not exist''
           \<and> err_resource e = type_name (resourceType (catalogFile pf)) @ ''/''
                               @ resourceId (catalogFile pf)
           \<and> err_rule e = (if field info = ''owners'' then ''refs/owner-exists''
                           else if truthy v then ''refs/valid-version-range''
                           else ''refs/resource-exists'')
           \<and> err_field e = field info \<and> err_type e = ''reference''
           \<and> err_file e = relativePath (catalogFile pf)"
    using i v s vs by simp
  then show ?thesis by blast
qed

subsection \<open>The example catalogs\<close>

lemma unversioned_index:
  "buildResourceIndex unversioned_catalog = Inr [Event \<mapsto> [''StockUpdate'' \<mapsto> [''latest'']]]"
  by (simp add: unversioned_catalog_def eval_defs)

lemma fruit_index:
  "buildResourceIndex fruit_catalog = Inr [Event \<mapsto> [''OutOfStock'' \<mapsto> [''banana'']]]"
  by (simp add: fruit_catalog_def eval_defs)

lemma inventory_index:
  "buildResourceIndex inventory_catalog
     = Inr [Command \<mapsto> [''GetInventoryList'' \<mapsto> [''0.0.1'', ''0.0.5'']]]"
  by (simp add: inventory_catalog_def eval_defs)




lemma untyped_validate:
  "validateReferences semver_core (sales_catalog @ [untyped_reference_flow])
     = Inr [sales_service_error, sales_owner_error, numeric_reference_error, bare_string_error]"
  by (simp add: sales_catalog_def untyped_reference_flow_def sales_service_error_def
      sales_owner_error_def numeric_reference_error_def bare_string_error_def validate_defs
      eval_defs)

lemma mixed_items_shape:
  "\<forall>pf\<in>set [mixed_items_flow, misshaped_service].
      canonical_id pf \<notin> set inherited_names \<and> well_shaped pf"
  by (simp add: mixed_items_flow_def misshaped_service_def shape_defs eval_defs)

lemma mixed_items_validate:
  "validateReferences semver_core [mixed_items_flow, misshaped_service] = Inr mixed_items_errors"
  by (simp add: mixed_items_flow_def misshaped_service_def mixed_items_errors_def validate_defs
      eval_defs)

lemma mixed_items_extract:
  "extractReferences mixed_items_flow =
     Inr [step_message_info,
          \<lparr>ref = JObj [(''id'', JNull)], possibleTypes = [User, Team], field = ''owners''\<rparr>,
          \<lparr>ref = JObj [(''id'', JBool True)], possibleTypes = [User, Team], field = ''owners''\<rparr>]"
  by (simp add: mixed_items_flow_def step_message_info_def extractReferences_def list_refs_def
      id_refs_def parsed_def fm_get_def indexed_field_def digit_char_def)

section \<open>The resource index\<close>




text \<open>
  Claim C5, as amended. A user, team or domain whose frontmatter id is a non-empty string
  has that string as its canonical id; a resource of any other type has its storage-derived
  id. In every index that the builder returns, the resource is indexed under its canonical
  id and nowhere else: the entry exists and holds its version, it is the only entry of the
  index of the resource alone, consuming the resource changes no other entry, a reference to
  the canonical id is satisfied, and against the index of the resource alone a reference to
  any other id that names no inherited member is not.
\<close>

theorem canonical_id_indexing:
  "(resourceType (catalogFile pf) \<in> {User, Team, Domain}
      \<and> fm_get (frontmatter pf) ''id'' = JStr s \<and> s \<noteq> [] \<longrightarrow> canonical_id pf = s)
   \<and> (resourceType (catalogFile pf) \<notin> {User, Team, Domain} \<longrightarrow>
        canonical_id pf = resourceId (catalogFile pf))
   \<and> (buildResourceIndex fs = Inr index \<and> pf \<in> set fs \<longrightarrow>
        (\<exists>vs. versions_at index (resourceType (catalogFile pf)) (canonical_id pf) = Some vs
              \<and> declared_version pf \<in> set vs))
   \<and> (buildResourceIndex [pf] = Inr index \<longrightarrow>
        (versions_at index t j \<noteq> None) = (t = resourceType (catalogFile pf) \<and> j = canonical_id pf))
   \<and> (buildResourceIndex before = Inr index \<and> buildResourceIndex (before @ [pf]) = Inr index'
        \<and> (t, j) \<noteq> (resourceType (catalogFile pf), canonical_id pf) \<longrightarrow>
        versions_at index' t j = versions_at index t j)
   \<and> (buildResourceIndex fs = Inr index \<and> pf \<in> set fs \<and> is_reference r (canonical_id pf) None
        \<longrightarrow> checkResourceExists sv r (resourceType (catalogFile pf)) index = Inr True)
   \<and> (buildResourceIndex [pf] = Inr index \<and> is_reference r j None \<and> j \<noteq> canonical_id pf
        \<and> j \<notin> set inherited_names
        \<longrightarrow> checkResourceExists sv r (resourceType (catalogFile pf)) index = Inr False)"
proof (intro conjI impI)
  assume "buildResourceIndex fs = Inr index \<and> pf \<in> set fs"
  then have b: "buildResourceIndex fs = Inr index" and m: "pf \<in> set fs" by simp_all
  from versions_at_build_None [OF b, of "resourceType (catalogFile pf)" "canonical_id pf"] m
  obtain vs where vs: "versions_at index (resourceType (catalogFile pf)) (canonical_id pf) = Some vs"
    by auto
  from versions_at_build_Some [OF b vs] m have "declared_version pf \<in> set vs" by auto
  with vs show "\<exists>vs. versions_at index (resourceType (catalogFile pf)) (canonical_id pf) = Some vs
              \<and> declared_version pf \<in> set vs" by blast
next
  assume b: "buildResourceIndex [pf] = Inr index"
  from versions_at_build_None [OF b, of t j]
  show "(versions_at index t j \<noteq> None) = (t = resourceType (catalogFile pf) \<and> j = canonical_id pf)"
    by auto
next
  assume a: "buildResourceIndex before = Inr index \<and> buildResourceIndex (before @ [pf]) = Inr index'
        \<and> (t, j) \<noteq> (resourceType (catalogFile pf), canonical_id pf)"
  then have b: "buildResourceIndex before = Inr index"
    and c: "buildResourceIndex (before @ [pf]) = Inr index'" by simp_all
  from c have "index_file index pf = Inr index'" unfolding buildResourceIndex_snoc b by simp
  from index_file_returns [OF this, of t j] a
  show "versions_at index' t j = versions_at index t j" by auto
next
  assume a: "buildResourceIndex fs = Inr index \<and> pf \<in> set fs \<and> is_reference r (canonical_id pf) None"
  then have b: "buildResourceIndex fs = Inr index" and m: "pf \<in> set fs"
    and r: "is_reference r (canonical_id pf) None" by simp_all
  from versions_at_build_None [OF b, of "resourceType (catalogFile pf)" "canonical_id pf"] m
  obtain vs where vs: "versions_at index (resourceType (catalogFile pf)) (canonical_id pf) = Some vs"
    by auto
  from versions_at_build_Some [OF b vs] have "vs \<noteq> []" by simp
  with index_lookup_own [OF vs]
  show "checkResourceExists sv r (resourceType (catalogFile pf)) index = Inr True"
    by (simp add: checkResourceExists_typed [OF r])
next
  assume a: "buildResourceIndex [pf] = Inr index \<and> is_reference r j None \<and> j \<noteq> canonical_id pf
        \<and> j \<notin> set inherited_names"
  then have b: "buildResourceIndex [pf] = Inr index" and r: "is_reference r j None"
    and j: "j \<noteq> canonical_id pf" "j \<notin> set inherited_names" by simp_all
  from versions_at_build_None [OF b, of "resourceType (catalogFile pf)" j] j
  have "versions_at index (resourceType (catalogFile pf)) j = None" by simp
  with index_lookup_plain [OF j(2), of index "resourceType (catalogFile pf)"]
  show "checkResourceExists sv r (resourceType (catalogFile pf)) index = Inr False"
    by (simp add: checkResourceExists_typed [OF r])
qed (simp_all add: canonical_id_string canonical_id_other del: set_simps)

text \<open>
  The user stored as \<open>aSmith\<close> with id \<open>asmith\<close>: found as \<open>asmith\<close>, not indexed and not
  found as \<open>aSmith\<close>.
\<close>

theorem canonical_id_indexing_witness:
  "canonical_id aliased_user = ''asmith''
   \<and> (\<exists>index. buildResourceIndex [aliased_user] = Inr index
        \<and> versions_at index User ''asmith'' \<noteq> None
        \<and> versions_at index User ''aSmith'' = None
        \<and> checkResourceExists semver_core (resource_reference ''asmith'' None) User index
            = Inr True
        \<and> checkResourceExists semver_core (resource_reference ''aSmith'' None) User index
            = Inr False)"
proof -
  let ?index = "[User \<mapsto> [''asmith'' \<mapsto> [''latest'']]]"
  have b: "buildResourceIndex [aliased_user] = Inr ?index"
    by (simp add: aliased_user_def eval_defs)
  have c: "canonical_id aliased_user = ''asmith''"
    using canonical_id_indexing [of aliased_user "''asmith''"]
    by (simp add: aliased_user_def parsed_def fm_get_def)
  have t: "resourceType (catalogFile aliased_user) = User"
    by (simp add: aliased_user_def parsed_def)
  have r: "is_reference (resource_reference ''asmith'' None) ''asmith'' None"
    "is_reference (resource_reference ''aSmith'' None) ''aSmith'' None"
    by (rule is_reference_resource_reference)+
  have n: "''aSmith'' \<notin> set inherited_names"
    by (simp add: inherited_names_def object_prototype_def)
  from canonical_id_indexing
         [where pf = aliased_user and fs = "[aliased_user]" and index = ?index and t = User
            and j = "''aSmith''" and r = "resource_reference ''asmith'' None"
            and sv = semver_core]
       canonical_id_indexing
         [where pf = aliased_user and fs = "[aliased_user]" and index = ?index and t = User
            and j = "''aSmith''" and r = "resource_reference ''aSmith'' None"
            and sv = semver_core]
       canonical_id_indexing
         [where pf = aliased_user and fs = "[aliased_user]" and index = ?index and t = User
            and j = "''asmith''"]
       canonical_id_indexing
         [where pf = aliased_user and before = "[]" and index = Map.empty and index' = ?index
            and t = User and j = "''aSmith''"]
       b c t r n buildResourceIndex_Nil
  show ?thesis by (simp add: versions_at_def)
qed

text \<open>
  The claim as first stated covers every string id. A user whose frontmatter id is the
  empty string is indexed under its storage-derived id, not under its frontmatter id.
\<close>

theorem canonical_id_indexing_counterexample:
  "resourceType (catalogFile empty_id_user) = User
   \<and> fm_get (frontmatter empty_id_user) ''id'' = JStr []
   \<and> resourceId (catalogFile empty_id_user) = ''aSmith''
   \<and> (\<exists>index. buildResourceIndex [empty_id_user] = Inr index
        \<and> versions_at index User [] = None
        \<and> versions_at index User ''aSmith'' = Some [''latest''])"
  by (simp add: empty_id_user_def eval_defs)

text \<open>
  Claim C9, as amended. In every index that the builder returns, every entry has a
  non-empty version set, and a (type, id) has no entry exactly when no resource of the input
  has that type and that canonical id, the canonical id being the key the builder computes
  (the frontmatter id only when it is a non-empty string). For an id that names no inherited
  member, a read of the index finds the entry when there is one and nothing otherwise.
\<close>

theorem index_entries_nonempty:
  "buildResourceIndex fs = Inr index \<Longrightarrow>
     (\<forall>vs. versions_at index t i = Some vs \<longrightarrow> vs \<noteq> [])
     \<and> ((versions_at index t i = None)
          = (\<forall>pf\<in>set fs. \<not> (resourceType (catalogFile pf) = t \<and> canonical_id pf = i)))
     \<and> (i \<notin> set inherited_names \<longrightarrow>
          index_lookup index t i = map_option SetOf (versions_at index t i))"
  using versions_at_build_Some versions_at_build_None index_lookup_plain by blast

text \<open>
  The index of the aliased user alone, read at its canonical id and at its storage-derived
  id.
\<close>

theorem index_entries_nonempty_witness:
  "\<exists>index. buildResourceIndex [aliased_user] = Inr index
     \<and> versions_at index User ''asmith'' = Some [''latest'']
     \<and> index_lookup index User ''asmith'' = Some (SetOf [''latest''])
     \<and> [''latest''] \<noteq> []
     \<and> versions_at index User ''aSmith'' = None
     \<and> index_lookup index User ''aSmith'' = None
     \<and> \<not> (resourceType (catalogFile aliased_user) = User \<and> canonical_id aliased_user = ''aSmith'')"
proof -
  let ?index = "[User \<mapsto> [''asmith'' \<mapsto> [''latest'']]]"
  have b: "buildResourceIndex [aliased_user] = Inr ?index"
    by (simp add: aliased_user_def eval_defs)
  have a: "versions_at ?index User ''asmith'' = Some [''latest'']"
    "versions_at ?index User ''aSmith'' = None"
    by (simp_all add: versions_at_def)
  have n: "''aSmith'' \<notin> set inherited_names" "''asmith'' \<notin> set inherited_names"
    by (simp_all add: inherited_names_def object_prototype_def)
  from index_entries_nonempty [OF b, of User "''asmith''"]
       index_entries_nonempty [OF b, of User "''aSmith''"] a b n
  show ?thesis by simp
qed

text \<open>
  The claim as first stated takes the canonical id of the specification, which is the
  frontmatter id whenever that is a string. A team whose frontmatter id is the empty string
  has the empty string for such a canonical id, and the index has no entry for it.
\<close>

theorem index_entries_nonempty_counterexample:
  "resourceType (catalogFile empty_id_team) = Team
   \<and> spec_canonical_id empty_id_team = []
   \<and> (\<exists>index. buildResourceIndex [empty_id_team] = Inr index
        \<and> index_lookup index Team [] = None
        \<and> versions_at index Team [] = None)"
  by (simp add: empty_id_team_def spec_canonical_id_def eval_defs)

section \<open>The version matcher\<close>

text \<open>
  Claim C2. Where the index has a version set for a (type, id), a reference to that id
  with no version, or with the version \<open>latest\<close>, is satisfied exactly when the set is
  non-empty; in particular it is satisfied by the set that holds the token \<open>latest\<close>
  alone. A reference to a (type, id) with no entry is not satisfied, whatever version it asks
  for, when the type has no entry at all or when the id names no inherited member. Where the
  type has entries and the id names a member that every object inherits, the read finds that
  member in place of a version set: the reference is then satisfied although the (type, id)
  has no entry, always when it has no version, and when the member has a positive length
  when its version is \<open>latest\<close>.
\<close>

theorem unversioned_and_latest_reference:
  "(is_reference r i None \<or> is_reference r i (Some ''latest'') \<longrightarrow>
      (\<forall>vs. versions_at index t i = Some vs \<longrightarrow>
             checkResourceExists sv r t index = Inr (vs \<noteq> []))
      \<and> (versions_at index t i = Some [''latest''] \<longrightarrow>
             checkResourceExists sv r t index = Inr True))
   \<and> (is_reference r i vo \<and> versions_at index t i = None \<and> i \<notin> set inherited_names \<longrightarrow>
        checkResourceExists sv r t index = Inr False)
   \<and> (is_reference r i vo \<and> index t = None \<longrightarrow> checkResourceExists sv r t index = Inr False)
   \<and> (is_reference r i None \<and> index t \<noteq> None \<and> versions_at index t i = None
        \<and> i \<in> set inherited_names \<longrightarrow>
        checkResourceExists sv r t index = Inr True)
   \<and> (is_reference r i (Some ''latest'') \<and> index t \<noteq> None \<and> versions_at index t i = None
        \<and> map_of object_prototype i = Some n \<longrightarrow>
        checkResourceExists sv r t index = Inr (0 < n))"
proof -
  have own: "versions_at index t i = Some vs \<Longrightarrow> index_lookup index t i = Some (SetOf vs)" for vs
    by (rule index_lookup_own)
  have none: "index t = None \<Longrightarrow> index_lookup index t i = None"
    by (simp add: index_lookup_def)
  have inh: "index t \<noteq> None \<Longrightarrow> versions_at index t i = None \<Longrightarrow>
               index_lookup index t i = map_option Inherited (map_of object_prototype i)"
    by (auto simp: index_lookup_def versions_at_def get_member_def)
  show ?thesis
    by (auto simp: checkResourceExists_typed own none index_lookup_plain inh inherited_member)
qed

text \<open>
  An event with no declared version, asked for with no version and as \<open>latest\<close>; an id
  the index lacks; and the ids \<open>constructor\<close> and \<open>toString\<close>, which it lacks as well.
\<close>

theorem unversioned_and_latest_reference_witness:
  "(\<exists>index. buildResourceIndex unversioned_catalog = Inr index
      \<and> versions_at index Event ''StockUpdate'' = Some [''latest'']
      \<and> checkResourceExists semver_core (resource_reference ''StockUpdate'' (Some ''latest''))
           Event index = Inr True
      \<and> checkResourceExists semver_core (resource_reference ''StockUpdate'' None)
           Event index = Inr True
      \<and> versions_at index Event ''Missing'' = None
      \<and> checkResourceExists semver_core (resource_reference ''Missing'' (Some ''latest''))
           Event index = Inr False
      \<and> checkResourceExists semver_core (resource_reference ''Missing'' None)
           Service index = Inr False
      \<and> versions_at index Event ''constructor'' = None
      \<and> checkResourceExists semver_core (resource_reference ''constructor'' None)
           Event index = Inr True
      \<and> checkResourceExists semver_core (resource_reference ''constructor'' (Some ''latest''))
           Event index = Inr True
      \<and> checkResourceExists semver_core (resource_reference ''toString'' (Some ''latest''))
           Event index = Inr False)"
proof -
  let ?index = "[Event \<mapsto> [''StockUpdate'' \<mapsto> [''latest'']]]"
  note b = unversioned_index
  have a: "versions_at ?index Event ''StockUpdate'' = Some [''latest'']"
    "versions_at ?index Event ''Missing'' = None"
    "versions_at ?index Event ''constructor'' = None"
    "versions_at ?index Event ''toString'' = None"
    "?index Event \<noteq> None" "?index Service = None"
    by (simp_all add: versions_at_def)
  have n: "''Missing'' \<notin> set inherited_names" "''constructor'' \<in> set inherited_names"
    "map_of object_prototype ''constructor'' = Some 1"
    "map_of object_prototype ''toString'' = Some 0"
    by (simp_all add: inherited_names_def object_prototype_def)
  note r = is_reference_resource_reference
  from unversioned_and_latest_reference
         [where r = "resource_reference ''StockUpdate'' (Some ''latest'')" and i = "''StockUpdate''"
            and index = ?index and t = Event and sv = semver_core]
       unversioned_and_latest_reference
         [where r = "resource_reference ''StockUpdate'' None" and i = "''StockUpdate''"
            and index = ?index and t = Event and sv = semver_core]
       unversioned_and_latest_reference
         [where r = "resource_reference ''Missing'' (Some ''latest'')" and i = "''Missing''"
            and index = ?index and t = Event and sv = semver_core and vo = "Some ''latest''"]
       unversioned_and_latest_reference
         [where r = "resource_reference ''Missing'' None" and i = "''Missing''"
            and index = ?index and t = Service and sv = semver_core and vo = None]
       unversioned_and_latest_reference
         [where r = "resource_reference ''constructor'' None" and i = "''constructor''"
            and index = ?index and t = Event and sv = semver_core]
       unversioned_and_latest_reference
         [where r = "resource_reference ''constructor'' (Some ''latest'')" and i = "''constructor''"
            and index = ?index and t = Event and sv = semver_core and n = 1]
       unversioned_and_latest_reference
         [where r = "resource_reference ''toString'' (Some ''latest'')" and i = "''toString''"
            and index = ?index and t = Event and sv = semver_core and n = 0]
       a n r b
  show ?thesis by simp
qed

text \<open>
  A catalog of one domain that names the domain \<open>constructor\<close>: the index has no such
  entry, the reference is satisfied, and the validator reports nothing, where it reports the
  domain \<open>marketing\<close> as missing.
\<close>

theorem unversioned_and_latest_reference_counterexample:
  "(\<exists>index. buildResourceIndex inherited_reference_catalog = Inr index
      \<and> versions_at index Domain ''constructor'' = None
      \<and> checkResourceExists semver_core (resource_reference ''constructor'' None) Domain index
          = Inr True)
   \<and> validateReferences semver_core inherited_reference_catalog = Inr []
   \<and> validateReferences semver_core missing_reference_catalog = Inr [missing_domain_error]"
  by (simp add: inherited_reference_catalog_def missing_reference_catalog_def
      missing_domain_error_def validate_defs eval_defs)

text \<open>
  Claim C10. A reference whose version is the empty string is matched exactly like the
  reference to the same id with no version, on every index. Against an index that the builder
  returns it is satisfied exactly when the (type, id) has an entry, whatever versions the
  entry holds, provided the id names no inherited member. An id that names one never has an
  entry, and the reference is satisfied as soon as the type has any entry.
\<close>

theorem empty_version_reference:
  "is_reference r i (Some []) \<Longrightarrow> is_reference r' i None \<Longrightarrow>
     checkResourceExists sv r t index = checkResourceExists sv r' t index
     \<and> (buildResourceIndex fs = Inr index \<and> i \<notin> set inherited_names \<longrightarrow>
          checkResourceExists sv r t index = Inr (versions_at index t i \<noteq> None))
     \<and> (buildResourceIndex fs = Inr index \<and> i \<in> set inherited_names \<longrightarrow>
          versions_at index t i = None
          \<and> checkResourceExists sv r t index = Inr (index t \<noteq> None))"
proof (intro conjI impI)
  assume r: "is_reference r i (Some [])" and r': "is_reference r' i None"
  show "checkResourceExists sv r t index = checkResourceExists sv r' t index"
    by (simp add: checkResourceExists_typed [OF r] checkResourceExists_typed [OF r']
        split: option.splits member.splits)
next
  assume r: "is_reference r i (Some [])"
    and a: "buildResourceIndex fs = Inr index \<and> i \<notin> set inherited_names"
  then have b: "buildResourceIndex fs = Inr index" and p: "i \<notin> set inherited_names" by simp_all
  show "checkResourceExists sv r t index = Inr (versions_at index t i \<noteq> None)"
    using versions_at_build_Some [OF b, of t i]
    by (auto simp: checkResourceExists_typed [OF r] index_lookup_plain [OF p]
        split: option.splits)
next
  assume r: "is_reference r i (Some [])"
    and a: "buildResourceIndex fs = Inr index \<and> i \<in> set inherited_names"
  then have b: "buildResourceIndex fs = Inr index" and p: "i \<in> set inherited_names" by simp_all
  from buildResourceIndex_returns_keys [OF b] p
  have "\<forall>pf\<in>set fs. \<not> (resourceType (catalogFile pf) = t \<and> canonical_id pf = i)" by auto
  then show n: "versions_at index t i = None" by (simp add: versions_at_build_None [OF b])
  from p obtain k where "map_of object_prototype i = Some k" by (auto simp: inherited_member)
  with n have "index_lookup index t i = (if index t = None then None else Some (Inherited k))"
    by (auto simp: index_lookup_def versions_at_def get_member_def split: option.splits)
  then show "checkResourceExists sv r t index = Inr (index t \<noteq> None)"
    by (simp add: checkResourceExists_typed [OF r])
qed

text \<open>
  Against an entry whose only version is \<open>banana\<close>; an id the index lacks; and the id
  \<open>toString\<close>, which it lacks as well.
\<close>

theorem empty_version_reference_witness:
  "\<exists>index. buildResourceIndex fruit_catalog = Inr index
     \<and> checkResourceExists semver_core (resource_reference ''OutOfStock'' (Some [])) Event index
         = checkResourceExists semver_core (resource_reference ''OutOfStock'' None) Event index
     \<and> checkResourceExists semver_core (resource_reference ''OutOfStock'' (Some [])) Event index
         = Inr True
     \<and> checkResourceExists semver_core (resource_reference ''InStock'' (Some [])) Event index
         = Inr False
     \<and> checkResourceExists semver_core (resource_reference ''toString'' (Some [])) Event index
         = Inr True
     \<and> checkResourceExists semver_core (resource_reference ''toString'' (Some [])) Command index
         = Inr False"
proof -
  let ?index = "[Event \<mapsto> [''OutOfStock'' \<mapsto> [''banana'']]]"
  note b = fruit_index
  have v: "versions_at ?index Event ''OutOfStock'' = Some [''banana'']"
    "versions_at ?index Event ''InStock'' = None"
    "?index Event \<noteq> None" "?index Command = None"
    by (simp_all add: versions_at_def)
  have n: "''OutOfStock'' \<notin> set inherited_names" "''InStock'' \<notin> set inherited_names"
    "''toString'' \<in> set inherited_names"
    by (simp_all add: inherited_names_def object_prototype_def)
  note r = is_reference_resource_reference
  from empty_version_reference
         [OF r r, where sv = semver_core and t = Event and index = ?index
            and fs = fruit_catalog and i = "''OutOfStock''"]
       empty_version_reference
         [OF r r, where sv = semver_core and t = Event and index = ?index
            and fs = fruit_catalog and i = "''InStock''"]
       empty_version_reference
         [OF r r, where sv = semver_core and t = Event and index = ?index
            and fs = fruit_catalog and i = "''toString''"]
       empty_version_reference
         [OF r r, where sv = semver_core and t = Command and index = ?index
            and fs = fruit_catalog and i = "''toString''"]
       v n b
  show ?thesis by auto
qed

text \<open>
  A catalog of one domain that names the domain \<open>toString\<close> with an empty version: the
  index has no such entry, the reference is satisfied, and the validator reports nothing.
\<close>

theorem empty_version_reference_counterexample:
  "(\<exists>index. buildResourceIndex inherited_empty_version_catalog = Inr index
      \<and> versions_at index Domain ''toString'' = None
      \<and> checkResourceExists semver_core (resource_reference ''toString'' (Some [])) Domain index
          = Inr True)
   \<and> validateReferences semver_core inherited_empty_version_catalog = Inr []"
  by (simp add: inherited_empty_version_catalog_def validate_defs eval_defs)

text \<open>
  Claim C4. A requested version that is verbatim a member of the available version set
  is satisfied, for every behaviour of the semver package: the exact match is decided before
  any semantic interpretation, so a stored version that is not a semantic version resolves
  a reference asking for exactly that string.
\<close>

theorem exact_version_match:
  "is_reference r i (Some v) \<Longrightarrow> versions_at index t i = Some vs \<Longrightarrow> v \<in> set vs \<Longrightarrow>
     checkResourceExists sv r t index = Inr True"
  by (auto simp: checkResourceExists_typed index_lookup_own)

text \<open>
  The version \<open>banana\<close>, which the semver fragment does not accept.
\<close>

theorem exact_version_match_witness:
  "\<not> valid semver_core ''banana''
   \<and> (\<exists>index. buildResourceIndex fruit_catalog = Inr index
        \<and> versions_at index Event ''OutOfStock'' = Some [''banana'']
        \<and> checkResourceExists semver_core (resource_reference ''OutOfStock'' (Some ''banana''))
            Event index = Inr True)"
proof -
  let ?index = "[Event \<mapsto> [''OutOfStock'' \<mapsto> [''banana'']]]"
  have v: "versions_at ?index Event ''OutOfStock'' = Some [''banana'']"
    by (simp add: versions_at_def)
  have r: "is_reference (resource_reference ''OutOfStock'' (Some ''banana'')) ''OutOfStock''
             (Some ''banana'')"
    by (rule is_reference_resource_reference)
  from exact_version_match [OF r v, of semver_core] v semver_core_examples(12) fruit_index
  show ?thesis by simp
qed

text \<open>
  Claim C3, as amended. For a requested version that is not the empty string, is not
  \<open>latest\<close> and is not verbatim in the available set, the matcher keeps the available
  entries that are valid semantic versions other than \<open>latest\<close>, and is satisfied exactly
  when one of them satisfies the requested token as a range or, the token containing
  \<open>.x\<close>, when one of them starts with the token stripped of every \<open>.x\<close>. With the
  semver fragment, \<open>^1.0.0\<close> is satisfied by 1.2.0 and not by 2.0.0 alone, and
  \<open>0.0.x\<close> is satisfied by 0.0.1 and 0.0.5 and not by 0.2.1.
\<close>

theorem semver_range_match:
  "(is_reference r i (Some v) \<and> v \<noteq> [] \<and> v \<noteq> ''latest''
      \<and> versions_at index t i = Some vs \<and> v \<notin> set vs \<longrightarrow>
      checkResourceExists sv r t index =
        Inr (let semverVersions = filter (\<lambda>a. a \<noteq> ''latest'' \<and> valid sv a) vs in
             (\<exists>a\<in>set semverVersions. satisfies sv a v)
             \<or> (str_includes v ''.x''
                 \<and> (\<exists>a\<in>set semverVersions. startsWith a (strip_dot_x v)))))
   \<and> (is_reference r i (Some ''^1.0.0'') \<and> versions_at index t i = Some [''1.2.0'']
        \<longrightarrow> checkResourceExists semver_core r t index = Inr True)
   \<and> (is_reference r i (Some ''^1.0.0'') \<and> versions_at index t i = Some [''2.0.0'']
        \<longrightarrow> checkResourceExists semver_core r t index = Inr False)
   \<and> (is_reference r i (Some ''0.0.x'') \<and> versions_at index t i = Some [''0.0.1'', ''0.0.5'']
        \<longrightarrow> checkResourceExists semver_core r t index = Inr True)
   \<and> (is_reference r i (Some ''0.0.x'') \<and> versions_at index t i = Some [''0.2.1'']
        \<longrightarrow> checkResourceExists semver_core r t index = Inr False)"
proof (intro conjI impI)
  assume "is_reference r i (Some v) \<and> v \<noteq> [] \<and> v \<noteq> ''latest''
          \<and> versions_at index t i = Some vs \<and> v \<notin> set vs"
  then show "checkResourceExists sv r t index =
        Inr (let semverVersions = filter (\<lambda>a. a \<noteq> ''latest'' \<and> valid sv a) vs in
             (\<exists>a\<in>set semverVersions. satisfies sv a v)
             \<or> (str_includes v ''.x''
                 \<and> (\<exists>a\<in>set semverVersions. startsWith a (strip_dot_x v))))"
    by (auto simp: checkResourceExists_typed index_lookup_own)
next
  assume "is_reference r i (Some ''^1.0.0'') \<and> versions_at index t i = Some [''1.2.0'']"
  then have a: "is_reference r i (Some ''^1.0.0'')" and b: "versions_at index t i = Some [''1.2.0'']"
    by simp_all
  show "checkResourceExists semver_core r t index = Inr True"
    by (simp add: checkResourceExists_typed [OF a] index_lookup_own [OF b] semver_core_examples)
next
  assume "is_reference r i (Some ''^1.0.0'') \<and> versions_at index t i = Some [''2.0.0'']"
  then have a: "is_reference r i (Some ''^1.0.0'')" and b: "versions_at index t i = Some [''2.0.0'']"
    by simp_all
  show "checkResourceExists semver_core r t index = Inr False"
    by (simp add: checkResourceExists_typed [OF a] index_lookup_own [OF b] semver_core_examples)
next
  assume "is_reference r i (Some ''0.0.x'') \<and> versions_at index t i = Some [''0.0.1'', ''0.0.5'']"
  then have a: "is_reference r i (Some ''0.0.x'')" and b: "versions_at index t i = Some [''0.0.1'', ''0.0.5'']"
    by simp_all
  show "checkResourceExists semver_core r t index = Inr True"
    by (simp add: checkResourceExists_typed [OF a] index_lookup_own [OF b] semver_core_examples)
next
  assume "is_reference r i (Some ''0.0.x'') \<and> versions_at index t i = Some [''0.2.1'']"
  then have a: "is_reference r i (Some ''0.0.x'')" and b: "versions_at index t i = Some [''0.2.1'']"
    by simp_all
  show "checkResourceExists semver_core r t index = Inr False"
    by (simp add: checkResourceExists_typed [OF a] index_lookup_own [OF b] semver_core_examples)
qed

text \<open>
  A command present as 0.0.1 and 0.0.5, asked for as \<open>0.0.x\<close> and as \<open>0.1.x\<close>.
\<close>

theorem semver_range_match_witness:
  "\<exists>index. buildResourceIndex inventory_catalog = Inr index
   \<and> versions_at index Command ''GetInventoryList'' = Some [''0.0.1'', ''0.0.5'']
   \<and> checkResourceExists semver_core (resource_reference ''GetInventoryList'' (Some ''0.0.x''))
       Command index = Inr True
   \<and> checkResourceExists semver_core (resource_reference ''GetInventoryList'' (Some ''0.1.x''))
       Command index = Inr False"
proof -
  let ?index = "[Command \<mapsto> [''GetInventoryList'' \<mapsto> [''0.0.1'', ''0.0.5'']]]"
  have v: "versions_at ?index Command ''GetInventoryList'' = Some [''0.0.1'', ''0.0.5'']"
    by (simp add: versions_at_def)
  have r: "is_reference (resource_reference ''GetInventoryList'' (Some ''0.0.x''))
             ''GetInventoryList'' (Some ''0.0.x'')"
    "is_reference (resource_reference ''GetInventoryList'' (Some ''0.1.x''))
             ''GetInventoryList'' (Some ''0.1.x'')"
    by (rule is_reference_resource_reference)+
  have s: "\<not> satisfies semver_core ''0.0.1'' ''0.1.x''" "\<not> satisfies semver_core ''0.0.5'' ''0.1.x''"
    by (simp_all add: semver_defs)
  from semver_range_match
         [of "resource_reference ''GetInventoryList'' (Some ''0.0.x'')" "''GetInventoryList''"
             "''0.0.x''" ?index Command "[''0.0.1'', ''0.0.5'']" semver_core]
       semver_range_match
         [of "resource_reference ''GetInventoryList'' (Some ''0.1.x'')" "''GetInventoryList''"
             "''0.1.x''" ?index Command "[''0.0.1'', ''0.0.5'']" semver_core]
       r s v inventory_index
  show ?thesis by (simp add: semver_core_examples)
qed

text \<open>
  The claim as first stated covers every requested version other than \<open>latest\<close> that
  is not in the available set. The empty string is one; against the set holding
  \<open>latest\<close> alone no entry is a semantic version, and the reference is satisfied.
\<close>

theorem semver_range_match_counterexample:
  "is_reference (resource_reference ''StockUpdate'' (Some [])) ''StockUpdate'' (Some [])
   \<and> [] \<noteq> ''latest''
   \<and> [] \<notin> set [''latest'']
   \<and> filter (\<lambda>a. a \<noteq> ''latest'' \<and> valid semver_core a) [''latest''] = []
   \<and> (\<exists>index. buildResourceIndex unversioned_catalog = Inr index
        \<and> versions_at index Event ''StockUpdate'' = Some [''latest'']
        \<and> checkResourceExists semver_core (resource_reference ''StockUpdate'' (Some [])) Event
            index = Inr True)"
proof -
  let ?index = "[Event \<mapsto> [''StockUpdate'' \<mapsto> [''latest'']]]"
  have v: "versions_at ?index Event ''StockUpdate'' = Some [''latest'']"
    by (simp add: versions_at_def)
  have l: "\<not> valid semver_core ''latest''"
    by (rule semver_core_examples)
  have c: "checkResourceExists semver_core (resource_reference ''StockUpdate'' (Some [])) Event
            ?index = Inr True"
    by (simp add: checkResourceExists_typed [OF is_reference_resource_reference]
        index_lookup_own [OF v])
  from v l c unversioned_index show ?thesis
    by (simp add: is_reference_resource_reference)
qed

section \<open>The validator\<close>




text \<open>
  Claim C6, as amended. Every error returned comes from a reference extracted from a file
  of the catalog. Its message is \<open>Referenced <types> "<id>"\<close>, then
  \<open> (version: <version>)\<close> exactly when the version of the reference is truthy, then
  \<open> does not exist\<close>, where the types are the single type name, or all the names joined
  with a slash, and the id and the version are printed as a template literal prints any
  value (a string as itself). Its resource key is \<open><type>/<storage-derived id>\<close> of the
  referencing resource; its rule is \<open>refs/owner-exists\<close> for the field \<open>owners\<close>, else
  \<open>refs/valid-version-range\<close> when the version of the reference is truthy, else
  \<open>refs/resource-exists\<close>; its field is the label of the reference, its type is
  \<open>reference\<close> and its file is the relative path of the referencing resource.
\<close>

theorem reference_error_shape:
  assumes "validateReferences sv parsedFiles = Inr errors"
    and "e \<in> set errors"
  shows "\<exists>pf\<in>set parsedFiles. \<exists>info\<in>set (references_of pf). \<exists>i v idStr vStr.
           extractReferences pf = Inr (references_of pf)
           \<and> get_prop (ref info) ''id'' = Inr i \<and> get_prop (ref info) ''version'' = Inr v
           \<and> js_to_string i = Inr idStr \<and> (truthy v \<longrightarrow> js_to_string v = Inr vStr)
           \<and> err_message e =
                ''Referenced ''
                @ (case possibleTypes info of [t] \<Rightarrow> type_name t
                   | _ \<Rightarrow> join ''/'' (map type_name (possibleTypes info)))
                @ '' '' @ dquote @ idStr @ dquote
                @ (if truthy v then '' (version: '' @ vStr @ '')'' else [])
                @ '' does not exist''
           \<and> err_resource e = type_name (resourceType (catalogFile pf)) @ ''/''
                               @ resourceId (catalogFile pf)
           \<and> err_rule e = (if field info = ''owners'' then ''refs/owner-exists''
                           else if truthy v then ''refs/valid-version-range''
                           else ''refs/resource-exists'')
           \<and> err_field e = field info \<and> err_type e = ''reference''
           \<and> err_file e = relativePath (catalogFile pf)"
proof -
  from assms(1) obtain index where b: "buildResourceIndex parsedFiles = Inr index"
    and v: "validate_files sv index parsedFiles [] = Inr errors"
    by (auto simp: validateReferences_def split: sum.splits)
  from validate_files_returns [OF v]
  have errs: "errors = concat (map (unresolved_errors sv index) parsedFiles)"
    and w: "\<forall>pf\<in>set parsedFiles. well_shaped pf" by simp_all
  from errs assms(2) obtain pf where pf: "pf \<in> set parsedFiles"
    and "e \<in> set (unresolved_errors sv index pf)"
    by auto
  then obtain info where info: "info \<in> set (references_of pf)"
    and e: "e = projr (reference_error pf info)"
    by (auto simp: unresolved_errors_def)
  from w pf obtain rs where rs: "extractReferences pf = Inr rs"
    "\<forall>info\<in>set rs. sound_reference (ref info)"
    by (auto simp: well_shaped_iff)
  then have x: "extractReferences pf = Inr (references_of pf)"
    by (simp add: references_of_def)
  from rs info have "sound_reference (ref info)" by (simp add: references_of_def)
  from reference_error_total [OF this] e have r: "reference_error pf info = Inr e"
    by (metis sum.sel(2))
  from reference_error_fields [OF r] pf info x show ?thesis by blast
qed

text \<open>
  The error for the reference whose id is the number 5 and whose version is the number 2,
  among the four errors of a catalog that also holds a string version, an owner and a bare
  string in place of a reference.
\<close>

theorem reference_error_shape_witness:
  "validateReferences semver_core (sales_catalog @ [untyped_reference_flow])
     = Inr [sales_service_error, sales_owner_error, numeric_reference_error, bare_string_error]
   \<and> js_to_string (JNum True ''5'') = Inr ''5''
   \<and> err_message numeric_reference_error
       = ''Referenced event/command/query '' @ dquote @ ''5'' @ dquote
         @ '' (version: 2) does not exist''
   \<and> (\<exists>pf\<in>set (sales_catalog @ [untyped_reference_flow]). \<exists>info\<in>set (references_of pf).
        \<exists>i v idStr vStr.
          get_prop (ref info) ''id'' = Inr i \<and> get_prop (ref info) ''version'' = Inr v
          \<and> js_to_string i = Inr idStr \<and> (truthy v \<longrightarrow> js_to_string v = Inr vStr)
          \<and> err_message numeric_reference_error =
               ''Referenced ''
               @ (case possibleTypes info of [t] \<Rightarrow> type_name t
                  | _ \<Rightarrow> join ''/'' (map type_name (possibleTypes info)))
               @ '' '' @ dquote @ idStr @ dquote
               @ (if truthy v then '' (version: '' @ vStr @ '')'' else [])
               @ '' does not exist''
          \<and> err_rule numeric_reference_error =
               (if field info = ''owners'' then ''refs/owner-exists''
                else if truthy v then ''refs/valid-version-range''
                else ''refs/resource-exists'')
          \<and> err_field numeric_reference_error = field info)"
proof -
  have m: "numeric_reference_error
             \<in> set [sales_service_error, sales_owner_error, numeric_reference_error,
                     bare_string_error]"
    by simp
  from reference_error_shape [OF untyped_validate m]
  have "\<exists>pf\<in>set (sales_catalog @ [untyped_reference_flow]). \<exists>info\<in>set (references_of pf).
        \<exists>i v idStr vStr.
          get_prop (ref info) ''id'' = Inr i \<and> get_prop (ref info) ''version'' = Inr v
          \<and> js_to_string i = Inr idStr \<and> (truthy v \<longrightarrow> js_to_string v = Inr vStr)
          \<and> err_message numeric_reference_error =
               ''Referenced ''
               @ (case possibleTypes info of [t] \<Rightarrow> type_name t
                  | _ \<Rightarrow> join ''/'' (map type_name (possibleTypes info)))
               @ '' '' @ dquote @ idStr @ dquote
               @ (if truthy v then '' (version: '' @ vStr @ '')'' else [])
               @ '' does not exist''
          \<and> err_rule numeric_reference_error =
               (if field info = ''owners'' then ''refs/owner-exists''
                else if truthy v then ''refs/valid-version-range''
                else ''refs/resource-exists'')
          \<and> err_field numeric_reference_error = field info"
    by blast
  moreover have "err_message numeric_reference_error
       = ''Referenced event/command/query '' @ dquote @ ''5'' @ dquote
         @ '' (version: 2) does not exist''"
    by (simp add: numeric_reference_error_def)
  ultimately show ?thesis
    using untyped_validate by simp
qed

text \<open>
  The claim as first stated ties the version suffix and the version rule to the reference
  carrying a version. A reference whose version is the empty string carries one, and its
  error has no suffix and the rule \<open>refs/resource-exists\<close>.
\<close>

theorem reference_error_shape_counterexample:
  "extractReferences (hd empty_version_catalog)
     = Inr [\<lparr>ref = resource_reference ''order-service'' (Some []), possibleTypes = [Service],
            field = ''services''\<rparr>]
   \<and> get_prop (resource_reference ''order-service'' (Some [])) ''version'' = Inr (JStr [])
   \<and> validateReferences semver_core empty_version_catalog = Inr [empty_version_error]
   \<and> err_message empty_version_error
       = ''Referenced service '' @ dquote @ ''order-service'' @ dquote @ '' does not exist''
   \<and> err_message empty_version_error
       \<noteq> ''Referenced service '' @ dquote @ ''order-service'' @ dquote
           @ '' (version: ) does not exist''
   \<and> err_rule empty_version_error = ''refs/resource-exists''
   \<and> err_rule empty_version_error \<noteq> ''refs/valid-version-range''"
proof -
  have "extractReferences (hd empty_version_catalog)
     = Inr [\<lparr>ref = resource_reference ''order-service'' (Some []), possibleTypes = [Service],
            field = ''services''\<rparr>]"
    by (simp add: empty_version_catalog_def extractReferences_def list_refs_def id_refs_def
        parsed_def fm_get_def)
  moreover have "validateReferences semver_core empty_version_catalog = Inr [empty_version_error]"
    by (simp add: empty_version_catalog_def empty_version_error_def validate_defs eval_defs)
  ultimately show ?thesis
    by (simp add: resource_reference_def empty_version_error_def dquote_def)
qed

text \<open>
  Claim C8, as amended. On a catalog whose index keys name no inherited member, the
  validator returns a list of errors exactly when every file is well shaped, whatever the
  types of the fields and of the items are otherwise. The extractor raises exactly on a flow
  whose steps, or an entity whose properties, hold \<open>null\<close> or \<open>undefined\<close>. A
  reference is extracted only from a frontmatter field that is a list: a field that is
  missing or of another type yields none.
\<close>

theorem validateReferences_total:
  "((\<forall>pf\<in>set parsedFiles. canonical_id pf \<notin> set inherited_names) \<longrightarrow>
      (\<exists>errors. validateReferences sv parsedFiles = Inr errors)
        = (\<forall>pf\<in>set parsedFiles. well_shaped pf))
   \<and> ((\<exists>e. extractReferences parsedFile = Inl e)
        = ((resourceType (catalogFile parsedFile) = Flow
              \<and> \<not> no_nullish_items (fm_get (frontmatter parsedFile) ''steps''))
           \<or> (resourceType (catalogFile parsedFile) = Entity
                \<and> \<not> no_nullish_items (fm_get (frontmatter parsedFile) ''properties''))))
   \<and> (extractReferences parsedFile = Inr references \<and> info \<in> set references \<longrightarrow>
        isArray (fm_get (frontmatter parsedFile) (field_root (field info))))"
proof (intro conjI impI)
  assume "\<forall>pf\<in>set parsedFiles. canonical_id pf \<notin> set inherited_names"
  then show "(\<exists>errors. validateReferences sv parsedFiles = Inr errors)
        = (\<forall>pf\<in>set parsedFiles. well_shaped pf)"
    by (auto simp: validateReferences_returns_iff)
next
  show "(\<exists>e. extractReferences parsedFile = Inl e)
        = ((resourceType (catalogFile parsedFile) = Flow
              \<and> \<not> no_nullish_items (fm_get (frontmatter parsedFile) ''steps''))
           \<or> (resourceType (catalogFile parsedFile) = Entity
                \<and> \<not> no_nullish_items (fm_get (frontmatter parsedFile) ''properties'')))"
    by (rule extractReferences_raises)
next
  assume "extractReferences parsedFile = Inr references \<and> info \<in> set references"
  then show "isArray (fm_get (frontmatter parsedFile) (field_root (field info)))"
    using extractReferences_field by blast
qed

text \<open>
  A flow whose steps are a number, a string and an object with a number for a message, owned
  by \<open>null\<close> and \<open>true\<close>; and a service whose version is a number, whose \<open>sends\<close> is a
  string and whose \<open>owners\<close> is an object.
\<close>

theorem validateReferences_total_witness:
  "list_all (\<lambda>pf. canonical_id pf \<notin> set inherited_names \<and> well_shaped pf)
     [mixed_items_flow, misshaped_service]
   \<and> validateReferences semver_core [mixed_items_flow, misshaped_service]
       = Inr mixed_items_errors
   \<and> no_nullish_items (fm_get (frontmatter mixed_items_flow) ''steps'')
   \<and> step_message_info \<in> set (references_of mixed_items_flow)
   \<and> isArray (fm_get (frontmatter mixed_items_flow) (field_root (field step_message_info)))
   \<and> extractReferences misshaped_service = Inr []"
proof -
  have m: "step_message_info \<in> set (references_of mixed_items_flow)"
    by (simp add: references_of_def mixed_items_extract)
  from m have "\<exists>references. extractReferences mixed_items_flow = Inr references
                  \<and> step_message_info \<in> set references"
    by (simp add: references_of_def mixed_items_extract)
  with validateReferences_total
         [of "[mixed_items_flow, misshaped_service]" semver_core mixed_items_flow _
             step_message_info]
  have a: "isArray (fm_get (frontmatter mixed_items_flow) (field_root (field step_message_info)))"
    by blast
  from validateReferences_total
         [of "[mixed_items_flow, misshaped_service]" semver_core mixed_items_flow]
    mixed_items_extract
  have n: "no_nullish_items (fm_get (frontmatter mixed_items_flow) ''steps'')"
    by (auto simp: mixed_items_flow_def parsed_def)
  have x: "extractReferences misshaped_service = Inr []"
    by (simp add: misshaped_service_def extractReferences_def list_refs_def id_refs_def
        parsed_def fm_get_def)
  from m a n x mixed_items_shape mixed_items_validate show ?thesis
    by (simp add: list_all_iff)
qed

text \<open>
  The claim as first stated includes \<open>null\<close> entries in a flow's steps and an entity's
  properties, and values of the wrong types. The callbacks read a property of each entry,
  which raises a TypeError on \<open>null\<close>; and the message of the error for an owner that is an
  object with a \<open>toString\<close> property cannot be built.
\<close>

theorem validateReferences_total_counterexample:
  "validateReferences semver_core [null_step_flow] = Inl TypeError
   \<and> validateReferences semver_core [null_property_entity] = Inl TypeError
   \<and> validateReferences semver_core [unprintable_owner_service] = Inl TypeError"
  by (simp add: null_step_flow_def null_property_entity_def unprintable_owner_service_def
      validate_defs eval_defs)

end
